theory Spec2Isabelle
  imports Complex_Main
begin

section \<open>The Athena query client (\<open>src/insights_mcp/athena.py\<close>)\<close>

text \<open>
  A shallow embedding of \<open>AthenaClient\<close>: query submission with the optional
  \<open>LIMIT\<close> wrapper, the completion poller, the result paginator, the
  \<open>DESCRIBE\<close> normaliser and the DDL-text facade.

  Conventions of the embedding.
  \<^item> A Python \<open>str\<close> is a \<open>string\<close>; each \<open>char\<close> stands for the code point of
    the same number (0 to 255).
  \<^item> A Python \<open>dict\<close> with string keys is an association list with distinct keys,
    kept in insertion order, as Python keeps it.
  \<^item> A \<open>float\<close> is the real number it denotes, and floats are compared exactly. The
    difference of two floats is rounded by the machine. The world lists the pairs whose
    computed difference is not the exact one, with that difference; nothing is assumed
    about it.
  \<^item> The remote service and the clock are a \<open>world\<close>: the successive readings
    of \<open>time.time()\<close>, for each remote operation the answers it will give, in
    order (\<open>Inl\<close> an exception of the client, \<open>Inr\<close> a response), and a log of
    the calls made so far. A call that finds no answer left yields \<open>NoAnswer\<close>:
    the run does not return.
\<close>

subsection \<open>Exceptions and outcomes\<close>

datatype error =
    TimeoutError string   \<comment> \<open>raised by the poller; carries the execution id\<close>
  | RuntimeError string   \<comment> \<open>raised by \<open>execute_query\<close>; carries the message\<close>
  | IndexError            \<comment> \<open>\<open>columns[i]\<close> out of range\<close>
  | ClientError string    \<comment> \<open>any exception raised by a call of the boto3 client\<close>

datatype 'a outcome = Return 'a | Raise error | NoAnswer

subsection \<open>Data of the remote protocol\<close>

text \<open>A result cell \<open>{"VarCharValue": v}\<close>; the key may be absent.\<close>

type_synonym datum = "string option"

text \<open>A result row \<open>{"Data": [...]}\<close>; the key may be absent.\<close>

type_synonym api_row = "datum list option"

record column_info =
  Label :: string
  Name :: string

record page =
  ColumnInfo :: "column_info list"
  Rows :: "api_row list"
  NextToken :: "string option"

record execution =
  State :: string
  StateChangeReason :: "string option"
  Statistics :: "(string \<times> string) list option"

subsection \<open>\<open>QueryResult\<close> and the client's configuration\<close>

type_synonym row_record = "(string \<times> string option) list"

record QueryResult =
  columns :: "string list"
  rows :: "row_record list"
  query_execution_id :: string
  state :: string
  statistics :: "(string \<times> string) list option"

record AthenaClient =
  workgroup :: string
  database :: string
  region :: string
  max_results :: int
  poll_interval :: real
  timeout :: real

text \<open>The defaults of \<open>AthenaClient.__init__\<close>\<close>

definition default_client :: AthenaClient where
  "default_client =
     \<lparr>workgroup = ''data_stitch'', database = ''d11_stitch'', region = ''us-east-1'',
      max_results = 100, poll_interval = 1, timeout = 300\<rparr>"

subsection \<open>The world: scripted answers and the call log\<close>

datatype call =
    StartQueryExecution string string string  \<comment> \<open>QueryString, Database, WorkGroup\<close>
  | GetQueryExecution string
  | GetQueryResults string "string option" int  \<comment> \<open>id, NextToken, MaxResults\<close>
  | TimeTime
  | TimeSleep real

record world =
  rounded :: "((real \<times> real) \<times> real) list"
  clock :: "real list"
  start_answers :: "(string + string) list"
  execution_answers :: "(string + execution) list"
  result_answers :: "(string + page) list"
  calls :: "call list"

text \<open>An answer is either the exception the client call raises or the response.\<close>

definition answer :: "string + 'a \<Rightarrow> 'a outcome" where
  "answer a = (case a of Inl msg \<Rightarrow> Raise (ClientError msg) | Inr x \<Rightarrow> Return x)"

text \<open>\<open>a - b\<close> on floats, as the machine computes it.\<close>

definition float_sub :: "world \<Rightarrow> real \<Rightarrow> real \<Rightarrow> real" where
  "float_sub w a b = (case map_of (rounded w) (a, b) of Some d \<Rightarrow> d | None \<Rightarrow> a - b)"

definition time_time :: "world \<Rightarrow> real outcome \<times> world" where
  "time_time w =
     (let w' = w\<lparr>calls := calls w @ [TimeTime]\<rparr>
      in case clock w of
           [] \<Rightarrow> (NoAnswer, w')
         | t # ts \<Rightarrow> (Return t, w'\<lparr>clock := ts\<rparr>))"

definition time_sleep :: "real \<Rightarrow> world \<Rightarrow> world" where
  "time_sleep d w = w\<lparr>calls := calls w @ [TimeSleep d]\<rparr>"

definition start_query_execution ::
  "string \<Rightarrow> string \<Rightarrow> string \<Rightarrow> world \<Rightarrow> string outcome \<times> world" where
  "start_query_execution q db wg w =
     (let w' = w\<lparr>calls := calls w @ [StartQueryExecution q db wg]\<rparr>
      in case start_answers w of
           [] \<Rightarrow> (NoAnswer, w')
         | a # as \<Rightarrow> (answer a, w'\<lparr>start_answers := as\<rparr>))"

definition get_query_execution :: "string \<Rightarrow> world \<Rightarrow> execution outcome \<times> world" where
  "get_query_execution qid w =
     (let w' = w\<lparr>calls := calls w @ [GetQueryExecution qid]\<rparr>
      in case execution_answers w of
           [] \<Rightarrow> (NoAnswer, w')
         | a # as \<Rightarrow> (answer a, w'\<lparr>execution_answers := as\<rparr>))"

definition get_query_results ::
  "string \<Rightarrow> string option \<Rightarrow> int \<Rightarrow> world \<Rightarrow> page outcome \<times> world" where
  "get_query_results qid tok mx w =
     (let w' = w\<lparr>calls := calls w @ [GetQueryResults qid tok mx]\<rparr>
      in case result_answers w of
           [] \<Rightarrow> (NoAnswer, w')
         | a # as \<Rightarrow> (answer a, w'\<lparr>result_answers := as\<rparr>))"

subsection \<open>The result paginator: \<open>_fetch_results\<close>\<close>

text \<open>\<open>d[k] = v\<close> on a dict: an existing key keeps its place, a new key goes last.\<close>

primrec dict_set :: "string \<Rightarrow> 'v \<Rightarrow> (string \<times> 'v) list \<Rightarrow> (string \<times> 'v) list" where
  "dict_set k v [] = [(k, v)]"
| "dict_set k v (p # ps) = (if fst p = k then (k, v) # ps else p # dict_set k v ps)"

text \<open>\<open>row.get("Data", [])\<close>\<close>

definition row_cells :: "api_row \<Rightarrow> datum list" where
  "row_cells r = (case r of None \<Rightarrow> [] | Some cs \<Rightarrow> cs)"

text \<open>
  The inner loop \<open>for i, cell in enumerate(...): row_data[columns[i]] = value\<close>,
  from index \<open>i\<close> on; \<open>columns[i]\<close> raises \<open>IndexError\<close> out of range.
\<close>

fun decode_cells :: "string list \<Rightarrow> nat \<Rightarrow> datum list \<Rightarrow> row_record \<Rightarrow> error + row_record" where
  "decode_cells cols i [] row_data = Inr row_data"
| "decode_cells cols i (cell # cells) row_data =
     (if i < length cols
      then decode_cells cols (Suc i) cells (dict_set (cols ! i) cell row_data)
      else Inl IndexError)"

definition decode_row :: "string list \<Rightarrow> api_row \<Rightarrow> error + row_record" where
  "decode_row cols r = decode_cells cols 0 (row_cells r) []"

text \<open>\<open>max_rows is not None and len(rows) >= max_rows\<close>\<close>

definition cap_reached :: "int option \<Rightarrow> 'a list \<Rightarrow> bool" where
  "cap_reached max_rows rs =
     (case max_rows of None \<Rightarrow> False | Some m \<Rightarrow> int (length rs) \<ge> m)"

text \<open>The loop \<open>for row in data_rows\<close>, with its \<open>break\<close> once the cap is reached.\<close>

fun convert_rows ::
  "int option \<Rightarrow> string list \<Rightarrow> api_row list \<Rightarrow> row_record list \<Rightarrow> error + row_record list" where
  "convert_rows max_rows cols [] acc = Inr acc"
| "convert_rows max_rows cols (r # rs) acc =
     (case decode_row cols r of
        Inl e \<Rightarrow> Inl e
      | Inr row_data \<Rightarrow>
          (let acc' = acc @ [row_data]
           in if cap_reached max_rows acc' then Inr acc'
              else convert_rows max_rows cols rs acc'))"

text \<open>\<open>col["Label"] or col["Name"]\<close>\<close>

definition column_name :: "column_info \<Rightarrow> string" where
  "column_name col = (if Label col \<noteq> [] then Label col else Name col)"

text \<open>Truthiness of \<open>next_token\<close>: neither \<open>None\<close> nor the empty string.\<close>

definition token_present :: "string option \<Rightarrow> bool" where
  "token_present tok = (case tok of None \<Rightarrow> False | Some s \<Rightarrow> s \<noteq> [])"

text \<open>The \<open>MaxResults\<close> argument of a page request.\<close>

definition page_size :: "AthenaClient \<Rightarrow> int option \<Rightarrow> nat \<Rightarrow> bool \<Rightarrow> int" where
  "page_size self max_rows n is_first_page =
     (case max_rows of
        None \<Rightarrow> max_results self
      | Some m \<Rightarrow>
          (let remaining = m - int n;
               page_cap = remaining + (if is_first_page then 1 else 0)
           in max 1 (min (max_results self) page_cap)))"

text \<open>
  The \<open>while True\<close> loop of \<open>_fetch_results\<close>, entered with the current
  \<open>columns\<close>, \<open>rows\<close>, \<open>next_token\<close> and \<open>is_first_page\<close>.
\<close>

function fetch_loop ::
  "AthenaClient \<Rightarrow> string \<Rightarrow> int option \<Rightarrow> string list \<Rightarrow> row_record list \<Rightarrow>
   string option \<Rightarrow> bool \<Rightarrow> world \<Rightarrow> (string list \<times> row_record list) outcome \<times> world" where
  "fetch_loop self qid max_rows cols acc next_token is_first_page w =
     (if cap_reached max_rows acc then (Return (cols, acc), w)
      else
        (case get_query_results qid
                (if token_present next_token then next_token else None)
                (page_size self max_rows (length acc) is_first_page) w of
           (NoAnswer, w') \<Rightarrow> (NoAnswer, w')
         | (Raise e, w') \<Rightarrow> (Raise e, w')
         | (Return response, w') \<Rightarrow>
             (let cols' = (if is_first_page then map column_name (ColumnInfo response) else cols);
                  data_rows = (if is_first_page then tl (Rows response) else Rows response)
              in case convert_rows max_rows cols' data_rows acc of
                   Inl e \<Rightarrow> (Raise e, w')
                 | Inr acc' \<Rightarrow>
                     (if \<not> token_present (NextToken response) \<or> cap_reached max_rows acc'
                      then (Return (cols', acc'), w')
                      else fetch_loop self qid max_rows cols' acc' (NextToken response) False w'))))"
  by pat_completeness auto

termination fetch_loop
  by (relation "measure (\<lambda>(self, qid, max_rows, cols, acc, tok, first, w). length (result_answers w))")
     (auto simp: get_query_results_def Let_def split: list.splits)

declare fetch_loop.simps [simp del]

definition fetch_results ::
  "AthenaClient \<Rightarrow> string \<Rightarrow> int option \<Rightarrow> world \<Rightarrow> QueryResult outcome \<times> world" where
  "fetch_results self qid max_rows w =
     (case fetch_loop self qid max_rows [] [] None True w of
        (NoAnswer, w1) \<Rightarrow> (NoAnswer, w1)
      | (Raise e, w1) \<Rightarrow> (Raise e, w1)
      | (Return (cols, rs), w1) \<Rightarrow>
          (case get_query_execution qid w1 of
             (NoAnswer, w2) \<Rightarrow> (NoAnswer, w2)
           | (Raise e, w2) \<Rightarrow> (Raise e, w2)
           | (Return execution, w2) \<Rightarrow>
               (Return \<lparr>columns = cols, rows = rs, query_execution_id = qid,
                        state = ''SUCCEEDED'', statistics = Statistics execution\<rparr>, w2)))"

subsection \<open>The completion poller: \<open>_wait_for_completion\<close>\<close>

definition terminal_states :: "string list" where
  "terminal_states = [''SUCCEEDED'', ''FAILED'', ''CANCELLED'']"

text \<open>
  The \<open>while True\<close> loop of \<open>_wait_for_completion\<close>. The message of the
  \<open>TimeoutError\<close> is abridged to the execution id.
\<close>

function wait_loop :: "AthenaClient \<Rightarrow> string \<Rightarrow> real \<Rightarrow> world \<Rightarrow> string outcome \<times> world" where
  "wait_loop self qid start_time w =
     (case time_time w of
        (NoAnswer, w1) \<Rightarrow> (NoAnswer, w1)
      | (Raise e, w1) \<Rightarrow> (Raise e, w1)
      | (Return now, w1) \<Rightarrow>
          (if float_sub w1 now start_time > timeout self then (Raise (TimeoutError qid), w1)
           else
             (case get_query_execution qid w1 of
                (NoAnswer, w2) \<Rightarrow> (NoAnswer, w2)
              | (Raise e, w2) \<Rightarrow> (Raise e, w2)
              | (Return response, w2) \<Rightarrow>
                  (if State response \<in> set terminal_states then (Return (State response), w2)
                   else wait_loop self qid start_time (time_sleep (poll_interval self) w2)))))"
  by pat_completeness auto
termination wait_loop
  by (relation "measure (\<lambda>(self, qid, start_time, w). length (clock w))")
     (auto simp: time_time_def get_query_execution_def time_sleep_def Let_def split: list.splits)

declare wait_loop.simps [simp del]

definition wait_for_completion :: "AthenaClient \<Rightarrow> string \<Rightarrow> world \<Rightarrow> string outcome \<times> world" where
  "wait_for_completion self qid w =
     (case time_time w of
        (NoAnswer, w1) \<Rightarrow> (NoAnswer, w1)
      | (Raise e, w1) \<Rightarrow> (Raise e, w1)
      | (Return start_time, w1) \<Rightarrow> wait_loop self qid start_time w1)"

subsection \<open>Strings\<close>

text \<open>Whitespace of \<open>str.strip\<close> and of the pattern \<open>\s\<close> below code point 256.\<close>

definition is_space :: "char \<Rightarrow> bool" where
  "is_space c =
     (let n = (of_char c :: nat)
      in (9 \<le> n \<and> n \<le> 13) \<or> (28 \<le> n \<and> n \<le> 32) \<or> n = 133 \<or> n = 160)"

text \<open>Word characters of the pattern \<open>\b\<close> below code point 256.\<close>

definition is_word :: "char \<Rightarrow> bool" where
  "is_word c =
     (let n = (of_char c :: nat)
      in (48 \<le> n \<and> n \<le> 57) \<or> (65 \<le> n \<and> n \<le> 90) \<or> n = 95 \<or> (97 \<le> n \<and> n \<le> 122)
         \<or> n = 170 \<or> n = 178 \<or> n = 179 \<or> n = 181 \<or> n = 185 \<or> n = 186
         \<or> (188 \<le> n \<and> n \<le> 190) \<or> (192 \<le> n \<and> n \<le> 214)
         \<or> (216 \<le> n \<and> n \<le> 246) \<or> (248 \<le> n \<and> n \<le> 255))"

definition ascii_upper :: "char \<Rightarrow> char" where
  "ascii_upper c =
     (let n = (of_char c :: nat)
      in if 97 \<le> n \<and> n \<le> 122 then char_of (n - 32) else c)"

definition lstrip :: "string \<Rightarrow> string" where
  "lstrip s = dropWhile is_space s"

definition rstrip :: "string \<Rightarrow> string" where
  "rstrip s = rev (dropWhile is_space (rev s))"

definition strip :: "string \<Rightarrow> string" where
  "strip s = rstrip (lstrip s)"

text \<open>\<open>s.rstrip(c)\<close> for a single character \<open>c\<close>\<close>

definition rstrip_char :: "char \<Rightarrow> string \<Rightarrow> string" where
  "rstrip_char c s = rev (dropWhile (\<lambda>x. x = c) (rev s))"

text \<open>\<open>s.split(c)\<close> for a single character \<open>c\<close>\<close>

fun split_char :: "char \<Rightarrow> string \<Rightarrow> string list" where
  "split_char c [] = [[]]"
| "split_char c (x # xs) =
     (if x = c then [] # split_char c xs
      else (case split_char c xs of p # ps \<Rightarrow> (x # p) # ps | [] \<Rightarrow> [[x]]))"

text \<open>\<open>sep.join(lines)\<close>\<close>

fun join :: "string \<Rightarrow> string list \<Rightarrow> string" where
  "join sep [] = []"
| "join sep [l] = l"
| "join sep (l # ls) = l @ sep @ join sep ls"

text \<open>\<open>str(n)\<close> for an integer\<close>

fun str_nat :: "nat \<Rightarrow> string" where
  "str_nat n = (if n < 10 then [char_of (48 + n)] else str_nat (n div 10) @ [char_of (48 + n mod 10)])"

declare str_nat.simps [simp del]

definition str_int :: "int \<Rightarrow> string" where
  "str_int i = (if i < 0 then CHR ''-'' # str_nat (nat (- i)) else str_nat (nat i))"

subsection \<open>Query submission: the \<open>LIMIT\<close> wrapper and \<open>execute_query\<close>\<close>

definition NON_WRAPPABLE_KEYWORDS :: "string list" where
  "NON_WRAPPABLE_KEYWORDS =
     [''SHOW'', ''DESCRIBE'', ''EXPLAIN'', ''MSCK'', ''USE'', ''SET'',
      ''CREATE'', ''DROP'', ''ALTER'', ''INSERT'', ''UPDATE'', ''DELETE'']"

text \<open>
  One alternative of the pattern followed by \<open>\b\<close>, matched at the start of \<open>s\<close>
  ignoring case: the keyword's letters, then the end of the text or a character that
  is not a word character.
\<close>

definition keyword_at_start :: "string \<Rightarrow> string \<Rightarrow> bool" where
  "keyword_at_start kw s =
     (map ascii_upper (take (length kw) s) = kw
      \<and> (case drop (length kw) s of [] \<Rightarrow> True | c # _ \<Rightarrow> \<not> is_word c))"

text \<open>\<open>_NON_WRAPPABLE_PREFIX.search(q)\<close>: the pattern \<open>^\s*(SHOW|...|DELETE)\b\<close>\<close>

definition NON_WRAPPABLE_PREFIX_search :: "string \<Rightarrow> bool" where
  "NON_WRAPPABLE_PREFIX_search q =
     list_ex (\<lambda>kw. keyword_at_start kw (dropWhile is_space q)) NON_WRAPPABLE_KEYWORDS"

definition strip_trailing_semicolon :: "string \<Rightarrow> string" where
  "strip_trailing_semicolon query = strip (rstrip_char (CHR '';'') (strip query))"

definition maybe_wrap_with_limit :: "string \<Rightarrow> int \<Rightarrow> string" where
  "maybe_wrap_with_limit query limit =
     (let q = strip_trailing_semicolon query
      in if NON_WRAPPABLE_PREFIX_search q then q
         else ''SELECT * FROM ('' @ [CHR 0x0A] @ q @ [CHR 0x0A] @ '') AS _q'' @ [CHR 0x0A]
              @ ''LIMIT '' @ str_int limit)"

definition query_to_run :: "string \<Rightarrow> int option \<Rightarrow> bool \<Rightarrow> string" where
  "query_to_run query max_rows enforce_limit =
     (case max_rows of
        Some m \<Rightarrow> (if enforce_limit then maybe_wrap_with_limit query m else query)
      | None \<Rightarrow> query)"

text \<open>\<open>Status.get("StateChangeReason", "Unknown error")\<close>\<close>

definition failure_reason :: "execution \<Rightarrow> string" where
  "failure_reason e = (case StateChangeReason e of None \<Rightarrow> ''Unknown error'' | Some r \<Rightarrow> r)"

definition execute_query ::
  "AthenaClient \<Rightarrow> string \<Rightarrow> int option \<Rightarrow> bool \<Rightarrow> world \<Rightarrow> QueryResult outcome \<times> world" where
  "execute_query self query max_rows enforce_limit w =
     (case start_query_execution (query_to_run query max_rows enforce_limit)
             (database self) (workgroup self) w of
        (NoAnswer, w1) \<Rightarrow> (NoAnswer, w1)
      | (Raise e, w1) \<Rightarrow> (Raise e, w1)
      | (Return qid, w1) \<Rightarrow>
          (case wait_for_completion self qid w1 of
             (NoAnswer, w2) \<Rightarrow> (NoAnswer, w2)
           | (Raise e, w2) \<Rightarrow> (Raise e, w2)
           | (Return st, w2) \<Rightarrow>
               (if st \<noteq> ''SUCCEEDED''
                then (case get_query_execution qid w2 of
                        (NoAnswer, w3) \<Rightarrow> (NoAnswer, w3)
                      | (Raise e, w3) \<Rightarrow> (Raise e, w3)
                      | (Return execution, w3) \<Rightarrow>
                          (Raise (RuntimeError (''Query failed: '' @ failure_reason execution)), w3))
                else fetch_results self qid max_rows w2)))"

subsection \<open>The schema normaliser: \<open>_normalize_describe_rows\<close>\<close>

text \<open>\<open>row.get("col_name") or ""\<close>\<close>

definition col_name_or_empty :: "row_record \<Rightarrow> string" where
  "col_name_or_empty row = (case map_of row ''col_name'' of Some (Some s) \<Rightarrow> s | _ \<Rightarrow> [])"

text \<open>\<open>any(k for k in row.keys() if k != "col_name")\<close>: truth of the keys themselves\<close>

definition row_has_other_cols :: "row_record \<Rightarrow> bool" where
  "row_has_other_cols row = list_ex (\<lambda>k. k \<noteq> []) (filter (\<lambda>k. k \<noteq> ''col_name'') (map fst row))"

definition normalize_row :: "row_record \<Rightarrow> row_record" where
  "normalize_row row =
     (let raw = rstrip_char (CHR 0x0A) (col_name_or_empty row);
          parts = split_char (CHR 0x09) raw @ [[], [], []]
      in [(''col_name'', Some (strip (parts ! 0))),
          (''data_type'', Some (strip (parts ! 1))),
          (''comment'', Some (strip (parts ! 2)))])"

definition normalize_describe_rows :: "QueryResult \<Rightarrow> row_record list" where
  "normalize_describe_rows result =
     (if rows result = [] then []
      else if ''col_name'' \<notin> set (columns result) then rows result
      else
        (let has_tab = list_ex (\<lambda>row. CHR 0x09 \<in> set (col_name_or_empty row)) (rows result);
             has_other_cols = list_ex row_has_other_cols (rows result)
         in if \<not> has_tab \<or> has_other_cols then rows result
            else map normalize_row (rows result)))"

subsection \<open>The DDL text: \<open>show_create_table_fq\<close>\<close>

text \<open>\<open>str(v)\<close> for a cell value\<close>

definition str_value :: "string option \<Rightarrow> string" where
  "str_value v = (case v of None \<Rightarrow> ''None'' | Some s \<Rightarrow> s)"

text \<open>The body of the loop over \<open>result.rows\<close>: the line a row contributes, if any.\<close>

definition ddl_line :: "string option \<Rightarrow> row_record \<Rightarrow> string option" where
  "ddl_line col row =
     (case row of
        [] \<Rightarrow> None
      | (k0, v0) # _ \<Rightarrow>
          Some (case col of
                  None \<Rightarrow> str_value v0
                | Some c \<Rightarrow>
                    (if c \<noteq> []
                     then (case map_of row c of Some (Some s) \<Rightarrow> s | _ \<Rightarrow> str_value v0)
                     else str_value v0)))"

definition ddl_text :: "QueryResult \<Rightarrow> string" where
  "ddl_text result =
     (if rows result = [] then []
      else
        (let col = (if columns result \<noteq> [] then Some (hd (columns result)) else None);
             lines = List.map_filter (ddl_line col) (rows result)
         in rstrip (join [CHR 0x0A] lines)))"

definition qualify_table_name :: "AthenaClient \<Rightarrow> string \<Rightarrow> string" where
  "qualify_table_name self full_table_name =
     (let name = strip full_table_name
      in if CHR ''.'' \<notin> set name then database self @ ''.'' @ name else name)"

definition show_create_table_fq :: "AthenaClient \<Rightarrow> string \<Rightarrow> world \<Rightarrow> string outcome \<times> world" where
  "show_create_table_fq self full_table_name w =
     (case execute_query self (''SHOW CREATE TABLE '' @ qualify_table_name self full_table_name)
             (Some 1000) False w of
        (NoAnswer, w') \<Rightarrow> (NoAnswer, w')
      | (Raise e, w') \<Rightarrow> (Raise e, w')
      | (Return result, w') \<Rightarrow> (Return (ddl_text result), w'))"

subsection \<open>Notions used in the statements\<close>

text \<open>
  The pages the remote serves from here on when the continuation tokens are followed:
  up to the first exception of the client or the first page without a token.
\<close>

fun page_chain :: "(string + page) list \<Rightarrow> page list" where
  "page_chain [] = []"
| "page_chain (Inl msg # _) = []"
| "page_chain (Inr p # as) = p # (if token_present (NextToken p) then page_chain as else [])"

text \<open>
  The data rows on those pages, in order. When the next page is the first one, its first
  row is the header and is not a data row.
\<close>

definition pending_rows :: "bool \<Rightarrow> (string + page) list \<Rightarrow> api_row list" where
  "pending_rows is_first_page as =
     (case page_chain as of
        [] \<Rightarrow> []
      | p # ps \<Rightarrow> (if is_first_page then tl (Rows p) else Rows p) @ concat (map Rows ps))"

text \<open>A list without its repetitions, each element at its first position.\<close>

definition first_seen :: "'a list \<Rightarrow> 'a list" where
  "first_seen xs = rev (remdups (rev xs))"

text \<open>The world after a page request that was answered.\<close>

definition after_page_request :: "string \<Rightarrow> string option \<Rightarrow> int \<Rightarrow> world \<Rightarrow> world" where
  "after_page_request qid tok mx w =
     w\<lparr>calls := calls w @ [GetQueryResults qid tok mx], result_answers := tl (result_answers w)\<rparr>"

text \<open>
  The leading keyword of a statement: the word characters that follow its leading
  whitespace, in upper case.
\<close>

definition leading_keyword :: "string \<Rightarrow> string" where
  "leading_keyword s = map ascii_upper (takeWhile is_word (dropWhile is_space s))"

text \<open>The number a string of decimal digits denotes.\<close>

definition decimal_value :: "string \<Rightarrow> nat" where
  "decimal_value s = foldl (\<lambda>a c. 10 * a + (of_char c - 48)) 0 s"

text \<open>
  The spec's wording of the statement that is wrapped: surrounding whitespace stripped,
  then a single trailing semicolon.
\<close>

definition strip_one_semicolon :: "string \<Rightarrow> string" where
  "strip_one_semicolon query =
     (let s = strip query in if s \<noteq> [] \<and> last s = CHR '';'' then butlast s else s)"

text \<open>
  In a call log, every status request comes right after a reading of the clock.
\<close>

fun polls_follow_checks :: "call list \<Rightarrow> bool" where
  "polls_follow_checks [] = True"
| "polls_follow_checks (TimeTime # GetQueryExecution q # cs) = polls_follow_checks cs"
| "polls_follow_checks (GetQueryExecution q # cs) = False"
| "polls_follow_checks (c # cs) = polls_follow_checks cs"



text \<open>The submission of \<open>execute_query\<close>, and the world it leaves.\<close>

definition submit :: "AthenaClient \<Rightarrow> string \<Rightarrow> int option \<Rightarrow> bool \<Rightarrow> world \<Rightarrow> string outcome \<times> world" where
  "submit self query max_rows enforce_limit w =
     start_query_execution (query_to_run query max_rows enforce_limit)
       (database self) (workgroup self) w"

text \<open>
  The spec's wording of the normaliser's condition: (a) the name field of some row contains
  a tab, and (b) no row has a populated field other than the name field. A field is
  populated when its value is neither null nor the empty string.
\<close>

definition populated :: "string option \<Rightarrow> bool" where
  "populated v = (case v of None \<Rightarrow> False | Some s \<Rightarrow> s \<noteq> [])"

definition spec_anomaly :: "row_record list \<Rightarrow> bool" where
  "spec_anomaly rs =
     (list_ex (\<lambda>row. CHR 0x09 \<in> set (col_name_or_empty row)) rs
      \<and> list_all (\<lambda>row. list_all (\<lambda>(k, v). k = ''col_name'' \<or> \<not> populated v) row) rs)"

text \<open>
  Part \<open>i\<close> of a string split on tabs, stripped of surrounding whitespace; the empty
  string when there is no such part.
\<close>

definition tab_part :: "nat \<Rightarrow> string \<Rightarrow> string" where
  "tab_part i s =
     (let ps = split_char (CHR 0x09) s in if i < length ps then strip (ps ! i) else [])"

text \<open>
  The row a name field is split into: the name field without its trailing newlines, cut
  at the tabs into name, type and comment.
\<close>

definition split_row :: "row_record \<Rightarrow> row_record" where
  "split_row row =
     (let raw = rstrip_char (CHR 0x0A) (col_name_or_empty row)
      in [(''col_name'', Some (tab_part 0 raw)),
          (''data_type'', Some (tab_part 1 raw)),
          (''comment'', Some (tab_part 2 raw))])"

text \<open>Every key of the row is \<open>col_name\<close> or the empty string.\<close>

definition only_name_keys :: "row_record \<Rightarrow> bool" where
  "only_name_keys row = list_all (\<lambda>k. k = ''col_name'' \<or> k = []) (map fst row)"

subsection \<open>Example worlds\<close>

definition succeeded :: execution where
  "succeeded = \<lparr>State = ''SUCCEEDED'', StateChangeReason = None, Statistics = None\<rparr>"

definition plain_column :: "string \<Rightarrow> column_info" where
  "plain_column n = \<lparr>Label = n, Name = n\<rparr>"

definition page_world :: "(string + page) list \<Rightarrow> (string + execution) list \<Rightarrow> world" where
  "page_world ps es =
     \<lparr>rounded = [], clock = [], start_answers = [], execution_answers = es,
      result_answers = ps, calls = []\<rparr>"

definition running :: execution where
  "running = \<lparr>State = ''RUNNING'', StateChangeReason = None, Statistics = None\<rparr>"



definition failed :: execution where
  "failed = \<lparr>State = ''FAILED'', StateChangeReason = Some ''SYNTAX_ERROR: line 1:8'', Statistics = None\<rparr>"

definition cancelled :: execution where
  "cancelled = \<lparr>State = ''CANCELLED'', StateChangeReason = None, Statistics = None\<rparr>"

definition remote_world ::
  "real list \<Rightarrow> (string + string) list \<Rightarrow> (string + execution) list \<Rightarrow> (string + page) list \<Rightarrow> world" where
  "remote_world ts ss es ps =
     \<lparr>rounded = [], clock = ts, start_answers = ss, execution_answers = es,
      result_answers = ps, calls = []\<rparr>"

definition ddl_page :: page where
  "ddl_page =
     \<lparr>ColumnInfo = [plain_column ''createtab_stmt''],
      Rows = [Some [Some ''createtab_stmt''], Some [Some ''CREATE TABLE t (''],
              Some [Some ''  id bigint)''], Some [Some '' '']],
      NextToken = None\<rparr>"

definition empty_ddl_page :: page where
  "empty_ddl_page =
     \<lparr>ColumnInfo = [plain_column ''createtab_stmt''],
      Rows = [Some [Some ''createtab_stmt'']], NextToken = None\<rparr>"

definition describe_result :: "string list \<Rightarrow> row_record list \<Rightarrow> QueryResult" where
  "describe_result cs rs =
     \<lparr>columns = cs, rows = rs, query_execution_id = ''e'', state = ''SUCCEEDED'',
      statistics = None\<rparr>"

definition collapsed_rows :: "row_record list" where
  "collapsed_rows =
     [[(''col_name'', Some (''id'' @ [CHR 0x09] @ ''bigint'' @ [CHR 0x09] @ ''primary key''))],
      [(''col_name'', Some (''name'' @ [CHR 0x09] @ ''varchar'' @ [CHR 0x09]))]]"

definition null_typed_rows :: "row_record list" where
  "null_typed_rows = [[(''col_name'', Some (''id'' @ [CHR 0x09] @ ''bigint'')), (''data_type'', None)]]"

text \<open>
  A \<open>DESCRIBE\<close> answer of the shape \<open>_normalize_describe_rows\<close> is written for:
  three declared columns, one cell in the data row.
\<close>

definition describe_page :: page where
  "describe_page =
     \<lparr>ColumnInfo = [plain_column ''col_name'', plain_column ''data_type'', plain_column ''comment''],
      Rows = [Some [Some ''col_name'', Some ''data_type'', Some ''comment''],
              Some [Some ''id bigint'']],
      NextToken = None\<rparr>"

definition two_pages :: "(string + page) list" where
  "two_pages =
     [Inr \<lparr>ColumnInfo = [plain_column ''a'', plain_column ''b''],
           Rows = [Some [Some ''a'', Some ''b''], Some [Some ''1'', None], Some [Some ''2'', Some ''x'']],
           NextToken = Some ''t1''\<rparr>,
      Inr \<lparr>ColumnInfo = [],
           Rows = [Some [Some ''3'', Some ''y''], Some [Some ''4'', Some ''z'']],
           NextToken = None\<rparr>]"


section \<open>Properties\<close>

subsection \<open>Row decoding\<close>

lemma decode_cells_total:
  "i + length cells \<le> length cols \<Longrightarrow> \<exists>out. decode_cells cols i cells rd = Inr out"
  by (induction cells arbitrary: i rd) auto

lemma decode_cells_fault:
  "length cols < i + length cells \<Longrightarrow> i \<le> length cols \<Longrightarrow>
   decode_cells cols i cells rd = Inl IndexError"
  by (induction cells arbitrary: i rd) auto

lemma decode_row_total:
  "length (row_cells r) \<le> length cols \<Longrightarrow> \<exists>out. decode_row cols r = Inr out"
  by (simp add: decode_row_def decode_cells_total)

lemma decode_row_fault:
  "length cols < length (row_cells r) \<Longrightarrow> decode_row cols r = Inl IndexError"
  by (simp add: decode_row_def decode_cells_fault)

lemma convert_rows_total:
  "\<forall>r\<in>set data_rows. length (row_cells r) \<le> length cols \<Longrightarrow>
   \<exists>out. convert_rows max_rows cols data_rows acc = Inr out"
proof (induction data_rows arbitrary: acc)
  case Nil
  show ?case by simp
next
  case (Cons r rs)
  from Cons.prems obtain rd where rd: "decode_row cols r = Inr rd"
    using decode_row_total by fastforce
  from Cons.prems have "\<forall>r\<in>set rs. length (row_cells r) \<le> length cols" by simp
  from Cons.IH [OF this] show ?case
    by (simp add: rd Let_def)
qed

lemma fetch_first_page_fault:
  assumes "result_answers w = Inr p # rest" and "Rows p = header # r # others"
    and "length (ColumnInfo p) < length (row_cells r)"
  shows "fst (fetch_results self qid None w) = Raise IndexError"
proof -
  have "decode_row (map column_name (ColumnInfo p)) r = Inl IndexError"
    using assms(3) by (simp add: decode_row_fault)
  then show ?thesis
    using assms(1,2)
    by (simp add: fetch_results_def fetch_loop.simps [of _ _ _ _ _ _ True] cap_reached_def
        get_query_results_def answer_def Let_def)
qed

text \<open>
  C10. Row decoding reads \<open>columns[i]\<close> at the position of each cell with no bounds
  check. When every data row of a page has at most as many cells as there are declared
  columns, converting the page's rows never faults. When the first data row of the first
  page has more cells than the page declares columns, the fetch raises \<open>IndexError\<close>.
\<close>

theorem row_decoding_bounds:
  "((\<forall>r\<in>set data_rows. length (row_cells r) \<le> length cols) \<longrightarrow>
      (\<exists>out. convert_rows max_rows cols data_rows acc = Inr out))
   \<and> (result_answers w = Inr p # rest \<and> Rows p = header # r # others
        \<and> length (ColumnInfo p) < length (row_cells r) \<longrightarrow>
      fst (fetch_results self qid None w) = Raise IndexError)"
  using convert_rows_total fetch_first_page_fault by blast

theorem row_decoding_bounds_witness:
  "length (row_cells (Some [Some ''1''])) \<le> length [''a'']
   \<and> (\<exists>out. convert_rows None [''a''] [Some [Some ''1'']] [] = Inr out)
   \<and> length [\<lparr>Label = ''a'', Name = ''a''\<rparr>] < length (row_cells (Some [Some ''1'', Some ''2'']))
   \<and> fst (fetch_results default_client ''q'' None
        \<lparr>rounded = [], clock = [], start_answers = [], execution_answers = [],
         result_answers =
           [Inr \<lparr>ColumnInfo = [\<lparr>Label = ''a'', Name = ''a''\<rparr>],
                 Rows = [Some [Some ''a''], Some [Some ''1'', Some ''2'']],
                 NextToken = None\<rparr>],
         calls = []\<rparr>) = Raise IndexError"
  using row_decoding_bounds [of "[Some [Some ''1'']]" "[''a'']" None "[]"
      "\<lparr>rounded = [], clock = [], start_answers = [], execution_answers = [],
         result_answers =
           [Inr \<lparr>ColumnInfo = [\<lparr>Label = ''a'', Name = ''a''\<rparr>],
                 Rows = [Some [Some ''a''], Some [Some ''1'', Some ''2'']],
                 NextToken = None\<rparr>],
         calls = []\<rparr>"
      "\<lparr>ColumnInfo = [\<lparr>Label = ''a'', Name = ''a''\<rparr>],
                 Rows = [Some [Some ''a''], Some [Some ''1'', Some ''2'']],
                 NextToken = None\<rparr>"
      "[]" "Some [Some ''a'']" "Some [Some ''1'', Some ''2'']" "[]" default_client "''q''"]
  by (simp add: row_cells_def)

lemma dict_set_keys:
  "map fst (dict_set k v al) = (if k \<in> set (map fst al) then map fst al else map fst al @ [k])"
  by (induction al) auto

lemma dict_set_new: "k \<notin> set (map fst al) \<Longrightarrow> dict_set k v al = al @ [(k, v)]"
  by (induction al) auto

lemma first_seen_snoc:
  "first_seen (xs @ [x]) = (if x \<in> set xs then first_seen xs else first_seen xs @ [x])"
  by (simp add: first_seen_def)

lemma set_first_seen: "set (first_seen xs) = set xs"
  by (simp add: first_seen_def)

lemma decode_cells_keys:
  "decode_cells cols i cells rd = Inr out \<Longrightarrow> map fst rd = first_seen (take i cols) \<Longrightarrow>
   map fst out = first_seen (take (i + length cells) cols)"
proof (induction cells arbitrary: i rd)
  case Nil
  then show ?case by simp
next
  case (Cons c cs)
  from Cons.prems(1) have i: "i < length cols"
    and rec: "decode_cells cols (Suc i) cs (dict_set (cols ! i) c rd) = Inr out"
    by (auto split: if_splits)
  have "map fst (dict_set (cols ! i) c rd) = first_seen (take (Suc i) cols)"
    using i Cons.prems(2)
    by (simp add: dict_set_keys take_Suc_conv_app_nth first_seen_snoc set_first_seen
        del: set_map flip: set_map)
  from Cons.IH [OF rec this] show ?case by simp
qed

lemma decode_cells_zip:
  "distinct cols \<Longrightarrow> i + length cells \<le> length cols \<Longrightarrow> map fst rd = take i cols \<Longrightarrow>
   decode_cells cols i cells rd = Inr (rd @ zip (drop i cols) cells)"
proof (induction cells arbitrary: i rd)
  case Nil
  then show ?case by simp
next
  case (Cons c cs)
  from Cons.prems have i: "i < length cols" by simp
  have notin: "cols ! i \<notin> set (take i cols)"
    using Cons.prems(1) i
    by (metis append_take_drop_id Cons_nth_drop_Suc distinct_append disjoint_iff list.set_intros(1))
  then have step: "dict_set (cols ! i) c rd = rd @ [(cols ! i, c)]"
    using Cons.prems(3) by (simp add: dict_set_new)
  have keys: "map fst (rd @ [(cols ! i, c)]) = take (Suc i) cols"
    using i Cons.prems(3) by (simp add: take_Suc_conv_app_nth)
  have "decode_cells cols (Suc i) cs (rd @ [(cols ! i, c)])
        = Inr ((rd @ [(cols ! i, c)]) @ zip (drop (Suc i) cols) cs)"
    using Cons.prems by (intro Cons.IH [OF _ _ keys]) auto
  then show ?case
    using i step by (simp flip: Cons_nth_drop_Suc)
qed

lemma decode_row_keys:
  "decode_row cols r = Inr rd \<Longrightarrow> map fst rd = first_seen (take (length (row_cells r)) cols)"
  using decode_cells_keys [of cols 0 "row_cells r" "[]" rd]
  by (simp add: decode_row_def first_seen_def)

lemma decode_row_zip:
  "distinct cols \<Longrightarrow> length (row_cells r) = length cols \<Longrightarrow> decode_row cols r = Inr rd \<Longrightarrow>
   rd = zip cols (row_cells r)"
  using decode_cells_zip [of cols 0 "row_cells r" "[]"]
  by (simp add: decode_row_def)

subsection \<open>The pagination loop\<close>

lemma fetch_loop_Nil:
  "result_answers w = [] \<Longrightarrow>
   fst (fetch_loop self qid mr cols acc tok first w) =
     (if cap_reached mr acc then Return (cols, acc) else NoAnswer)"
  by (simp add: fetch_loop.simps [of _ _ _ _ _ _ _ w] get_query_results_def Let_def)

lemma fetch_loop_Inl:
  "result_answers w = Inl msg # as \<Longrightarrow>
   fst (fetch_loop self qid mr cols acc tok first w) =
     (if cap_reached mr acc then Return (cols, acc) else Raise (ClientError msg))"
  by (simp add: fetch_loop.simps [of _ _ _ _ _ _ _ w] get_query_results_def Let_def answer_def)

lemma fetch_loop_Inr:
  "result_answers w = Inr p # as \<Longrightarrow>
   fetch_loop self qid mr cols acc tok first w =
     (if cap_reached mr acc then (Return (cols, acc), w)
      else
        (let w' = after_page_request qid (if token_present tok then tok else None)
                    (page_size self mr (length acc) first) w;
             cols' = (if first then map column_name (ColumnInfo p) else cols);
             data_rows = (if first then tl (Rows p) else Rows p)
         in case convert_rows mr cols' data_rows acc of
              Inl e \<Rightarrow> (Raise e, w')
            | Inr acc' \<Rightarrow>
                (if \<not> token_present (NextToken p) \<or> cap_reached mr acc'
                 then (Return (cols', acc'), w')
                 else fetch_loop self qid mr cols' acc' (NextToken p) False w')))"
  by (simp add: fetch_loop.simps [of _ _ _ _ _ _ _ w] get_query_results_def Let_def answer_def
      after_page_request_def)

lemma after_page_request_answers [simp]:
  "result_answers (after_page_request qid tok mx w) = tl (result_answers w)"
  by (simp add: after_page_request_def)

lemma set_tl_subset: "set (tl xs) \<subseteq> set xs"
  by (cases xs) auto

lemma convert_rows_sources:
  "convert_rows mr cols drs acc = Inr out \<Longrightarrow> rd \<in> set out \<Longrightarrow>
   rd \<in> set acc \<or> (\<exists>r\<in>set drs. decode_row cols r = Inr rd)"
proof (induction drs arbitrary: acc)
  case Nil
  then show ?case by simp
next
  case (Cons r rs)
  from Cons.prems(1) obtain x where x: "decode_row cols r = Inr x"
    by (auto split: sum.splits)
  show ?case
  proof (cases "cap_reached mr (acc @ [x])")
    case True
    with Cons.prems x show ?thesis by (auto simp: Let_def)
  next
    case False
    with Cons.prems(1) x have "convert_rows mr cols rs (acc @ [x]) = Inr out"
      by (simp add: Let_def)
    from Cons.IH [OF this Cons.prems(2)] x show ?thesis by auto
  qed
qed

lemma fetch_loop_sources:
  "fetch_loop self qid mr cols acc tok first w = (Return (cols', out), w') \<Longrightarrow>
   (\<not> first \<longrightarrow> cols' = cols) \<and>
   (\<forall>rd\<in>set out. rd \<in> set acc \<or>
      (\<exists>p r. Inr p \<in> set (result_answers w) \<and> r \<in> set (Rows p) \<and> decode_row cols' r = Inr rd))"
proof (induction as \<equiv> "result_answers w" arbitrary: w cols acc tok first)
  case Nil
  from Nil(1) [symmetric] Nil(2) show ?case
    using fetch_loop_Nil [of w self qid mr cols acc tok first]
    by (auto split: if_splits)
next
  case (Cons a as)
  show ?case
  proof (cases a)
    case (Inl msg)
    with Cons(2) [symmetric] Cons(3) show ?thesis
      using fetch_loop_Inl [of w msg as self qid mr cols acc tok first]
      by (auto split: if_splits)
  next
    case (Inr p)
    with Cons(2) have ans: "result_answers w = Inr p # as" by simp
    show ?thesis
    proof (cases "cap_reached mr acc")
      case True
      with Cons(3) ans show ?thesis by (simp add: fetch_loop_Inr)
    next
      case False
      define w1 where "w1 = after_page_request qid (if token_present tok then tok else None)
                    (page_size self mr (length acc) first) w"
      define cols1 where "cols1 = (if first then map column_name (ColumnInfo p) else cols)"
      define drs where "drs = (if first then tl (Rows p) else Rows p)"
      have drs_sub: "set drs \<subseteq> set (Rows p)"
        using set_tl_subset [of "Rows p"] by (auto simp: drs_def)
      have unfold: "fetch_loop self qid mr cols acc tok first w =
          (case convert_rows mr cols1 drs acc of
             Inl e \<Rightarrow> (Raise e, w1)
           | Inr acc' \<Rightarrow>
               (if \<not> token_present (NextToken p) \<or> cap_reached mr acc'
                then (Return (cols1, acc'), w1)
                else fetch_loop self qid mr cols1 acc' (NextToken p) False w1))"
        by (simp only: fetch_loop_Inr [OF ans] False if_False Let_def w1_def cols1_def drs_def)
      from Cons(3) obtain acc1 where
        conv: "convert_rows mr cols1 drs acc = Inr acc1" and
        rest: "(if \<not> token_present (NextToken p) \<or> cap_reached mr acc1
                 then (Return (cols1, acc1), w1)
                 else fetch_loop self qid mr cols1 acc1 (NextToken p) False w1) = (Return (cols', out), w')"
        unfolding unfold by (cases "convert_rows mr cols1 drs acc") auto
      have src1: "\<forall>rd\<in>set acc1. rd \<in> set acc \<or> (\<exists>r\<in>set (Rows p). decode_row cols1 r = Inr rd)"
        using convert_rows_sources [OF conv] drs_sub by blast
      show ?thesis
      proof (cases "\<not> token_present (NextToken p) \<or> cap_reached mr acc1")
        case True
        with rest have eqs: "cols' = cols1" "out = acc1" by simp_all
        have "\<not> first \<longrightarrow> cols' = cols" by (simp add: eqs cols1_def)
        moreover have "\<forall>rd\<in>set out. rd \<in> set acc \<or>
            (\<exists>p r. Inr p \<in> set (result_answers w) \<and> r \<in> set (Rows p) \<and> decode_row cols' r = Inr rd)"
          using src1 unfolding eqs ans by (metis list.set_intros(1))
        ultimately show ?thesis by blast
      next
        case False
        with rest have rec: "fetch_loop self qid mr cols1 acc1 (NextToken p) False w1 = (Return (cols', out), w')"
          by simp
        have "as = result_answers w1" by (simp add: w1_def ans)
        from Cons(1) [OF this rec] have c: "cols' = cols1"
          and src2: "\<forall>rd\<in>set out. rd \<in> set acc1 \<or>
            (\<exists>p r. Inr p \<in> set as \<and> r \<in> set (Rows p) \<and> decode_row cols' r = Inr rd)"
          by (auto simp: w1_def ans)
        show ?thesis
        proof (intro conjI ballI impI)
          assume "\<not> first" then show "cols' = cols" using c by (simp add: cols1_def)
        next
          fix rd assume "rd \<in> set out"
          with src2 src1 c ans
          show "rd \<in> set acc \<or>
            (\<exists>p r. Inr p \<in> set (result_answers w) \<and> r \<in> set (Rows p) \<and> decode_row cols' r = Inr rd)"
            by (metis list.set_intros(1,2))
        qed
      qed
    qed
  qed
qed

lemma fetch_results_Return:
  "fetch_results self qid mr w = (Return qr, w') \<Longrightarrow>
   \<exists>w1. fetch_loop self qid mr [] [] None True w = (Return (columns qr, rows qr), w1)"
  by (auto simp: fetch_results_def split: prod.splits outcome.splits)

lemma pending_rows_False: "pending_rows False as = concat (map Rows (page_chain as))"
  by (simp add: pending_rows_def split: list.splits)

lemma pending_rows_Inr:
  "pending_rows first (Inr p # as) =
     (if first then tl (Rows p) else Rows p)
     @ (if token_present (NextToken p) then pending_rows False as else [])"
  by (simp add: pending_rows_def pending_rows_False [unfolded pending_rows_def])

lemma convert_rows_capped:
  "convert_rows (Some (int n)) cols drs acc = Inr out \<Longrightarrow> length acc < n \<Longrightarrow>
   \<exists>new. out = acc @ new \<and> map Inr new = map (decode_row cols) (take (n - length acc) drs)"
proof (induction drs arbitrary: acc)
  case Nil
  then show ?case by simp
next
  case (Cons r rs)
  from Cons.prems(1) obtain x where x: "decode_row cols r = Inr x"
    by (auto split: sum.splits)
  from Cons.prems(2) obtain k where k: "n - length acc = Suc k"
    by (metis Suc_diff_Suc)
  show ?case
  proof (cases "cap_reached (Some (int n)) (acc @ [x])")
    case True
    then have "k = 0" using k by (simp add: cap_reached_def)
    moreover from True Cons.prems(1) x have "out = acc @ [x]" by (simp add: Let_def)
    ultimately show ?thesis using x k by simp
  next
    case False
    then have lt: "length (acc @ [x]) < n" by (simp add: cap_reached_def)
    from False Cons.prems(1) x have "convert_rows (Some (int n)) cols rs (acc @ [x]) = Inr out"
      by (simp add: Let_def)
    from Cons.IH [OF this lt] obtain new where
      new: "out = (acc @ [x]) @ new"
        "map Inr new = map (decode_row cols) (take (n - length (acc @ [x])) rs)"
      by blast
    have "n - length (acc @ [x]) = k" using k by simp
    with new x k have "out = acc @ (x # new) \<and>
        map Inr (x # new) = map (decode_row cols) (take (n - length acc) (r # rs))"
      by simp
    then show ?thesis by blast
  qed
qed

lemma fetch_loop_capped:
  "fetch_loop self qid (Some (int n)) cols acc tok first w = (Return (cols', out), w') \<Longrightarrow>
   length acc \<le> n \<Longrightarrow>
   \<exists>new. out = acc @ new \<and>
     map Inr new = map (decode_row cols') (take (n - length acc) (pending_rows first (result_answers w)))"
proof (induction as \<equiv> "result_answers w" arbitrary: w cols acc tok first)
  case Nil
  from Nil(1) [symmetric] Nil(2) have "out = acc" "cap_reached (Some (int n)) acc"
    using fetch_loop_Nil [of w self qid "Some (int n)" cols acc tok first]
    by (auto split: if_splits)
  with Nil(3) show ?case by (simp add: cap_reached_def)
next
  case (Cons a as)
  show ?case
  proof (cases "cap_reached (Some (int n)) acc")
    case True
    with Cons(3) have "out = acc"
      by (simp add: fetch_loop.simps [of _ _ _ _ _ _ _ w])
    with True Cons(4) show ?thesis by (simp add: cap_reached_def)
  next
    case False
    then have lt: "length acc < n" by (simp add: cap_reached_def)
    show ?thesis
    proof (cases a)
      case (Inl msg)
      with Cons(2) [symmetric] Cons(3) False show ?thesis
        using fetch_loop_Inl [of w msg as self qid "Some (int n)" cols acc tok first]
        by simp
    next
      case (Inr p)
      with Cons(2) have ans: "result_answers w = Inr p # as" by simp
      define w1 where "w1 = after_page_request qid (if token_present tok then tok else None)
                    (page_size self (Some (int n)) (length acc) first) w"
      define cols1 where "cols1 = (if first then map column_name (ColumnInfo p) else cols)"
      define drs where "drs = (if first then tl (Rows p) else Rows p)"
      define X where "X = (if token_present (NextToken p) then pending_rows False as else [])"
      have pend: "pending_rows first (result_answers w) = drs @ X"
        by (simp only: ans pending_rows_Inr drs_def X_def)
      have unfold: "fetch_loop self qid (Some (int n)) cols acc tok first w =
          (case convert_rows (Some (int n)) cols1 drs acc of
             Inl e \<Rightarrow> (Raise e, w1)
           | Inr acc' \<Rightarrow>
               (if \<not> token_present (NextToken p) \<or> cap_reached (Some (int n)) acc'
                then (Return (cols1, acc'), w1)
                else fetch_loop self qid (Some (int n)) cols1 acc' (NextToken p) False w1))"
        by (simp only: fetch_loop_Inr [OF ans] False if_False Let_def w1_def cols1_def drs_def)
      from Cons(3) obtain acc1 where
        conv: "convert_rows (Some (int n)) cols1 drs acc = Inr acc1" and
        rest: "(if \<not> token_present (NextToken p) \<or> cap_reached (Some (int n)) acc1
                 then (Return (cols1, acc1), w1)
                 else fetch_loop self qid (Some (int n)) cols1 acc1 (NextToken p) False w1)
               = (Return (cols', out), w')"
        unfolding unfold by (cases "convert_rows (Some (int n)) cols1 drs acc") auto
      from convert_rows_capped [OF conv lt] obtain new1 where
        new1: "acc1 = acc @ new1"
          "map Inr new1 = map (decode_row cols1) (take (n - length acc) drs)"
        by blast
      from new1(2) have len1: "length new1 = min (length drs) (n - length acc)"
        by (metis length_map length_take)
      show ?thesis
      proof (cases "\<not> token_present (NextToken p) \<or> cap_reached (Some (int n)) acc1")
        case True
        with rest have eqs: "cols' = cols1" "out = acc1" by simp_all
        have "take (n - length acc) (drs @ X) = take (n - length acc) drs"
        proof (cases "token_present (NextToken p)")
          case False
          then show ?thesis by (simp add: X_def)
        next
          case tok: True
          with True have "cap_reached (Some (int n)) acc1" by simp
          then have "n - length acc \<le> length drs"
            using len1 new1(1) by (simp add: cap_reached_def)
          then show ?thesis by simp
        qed
        with new1 show ?thesis unfolding eqs pend by auto
      next
        case False
        then have tok: "token_present (NextToken p)"
          and lt1: "length acc1 < n" by (simp_all add: cap_reached_def)
        from False rest have rec:
          "fetch_loop self qid (Some (int n)) cols1 acc1 (NextToken p) False w1 = (Return (cols', out), w')"
          by simp
        have as: "as = result_answers w1" by (simp add: w1_def ans)
        from fetch_loop_sources [OF rec] have c: "cols' = cols1" by simp
        from Cons(1) [OF as rec] lt1 obtain new2 where
          new2: "out = acc1 @ new2"
            "map Inr new2 = map (decode_row cols') (take (n - length acc1) (pending_rows False as))"
          using as by auto
        from lt1 len1 new1(1) have all: "length new1 = length drs" "length drs \<le> n - length acc"
          by auto
        then have tk: "take (n - length acc) (drs @ X) = drs @ take (n - length acc1) (pending_rows False as)"
          using tok new1(1) by (simp add: X_def)
        have "out = acc @ (new1 @ new2)" using new1(1) new2(1) by simp
        moreover have "map Inr (new1 @ new2) = map (decode_row cols') (take (n - length acc) (drs @ X))"
          using new1(2) new2(2) all unfolding tk c by simp
        ultimately show ?thesis unfolding pend by blast
      qed
    qed
  qed
qed

lemma fst_fetch_results_Return:
  "fst (fetch_results self qid mr w) = Return qr \<Longrightarrow>
   \<exists>w1. fetch_loop self qid mr [] [] None True w = (Return (columns qr, rows qr), w1)"
  using fetch_results_Return [of self qid mr w qr] by (metis prod.collapse)


subsection \<open>Shape of the row records\<close>

text \<open>
  C2, as amended. Every row record of a returned \<open>QueryResult\<close> is the decoding of a row
  of a fetched page against the declared columns. Its keys are the declared column names
  at the positions of that row's cells, each name once, in declared order. When the row
  carries one cell for each declared column and the column names are distinct, the record
  pairs each declared column, in order, with its cell: the text of the cell, or an explicit
  null for a cell without a value.
\<close>

theorem row_record_shape:
  assumes "fst (fetch_results self qid max_rows w) = Return qr" and "rd \<in> set (rows qr)"
  shows "\<exists>p r. Inr p \<in> set (result_answers w) \<and> r \<in> set (Rows p)
      \<and> decode_row (columns qr) r = Inr rd
      \<and> map fst rd = first_seen (take (length (row_cells r)) (columns qr))
      \<and> (distinct (columns qr) \<and> length (row_cells r) = length (columns qr)
           \<longrightarrow> rd = zip (columns qr) (row_cells r))"
proof -
  from fst_fetch_results_Return [OF assms(1)] obtain w1 where
    "fetch_loop self qid max_rows [] [] None True w = (Return (columns qr, rows qr), w1)"
    by blast
  from fetch_loop_sources [OF this] assms(2) obtain p r where
    pr: "Inr p \<in> set (result_answers w)" "r \<in> set (Rows p)" "decode_row (columns qr) r = Inr rd"
    by auto
  from pr(3) have "map fst rd = first_seen (take (length (row_cells r)) (columns qr))"
    by (rule decode_row_keys)
  moreover have "distinct (columns qr) \<and> length (row_cells r) = length (columns qr)
           \<longrightarrow> rd = zip (columns qr) (row_cells r)"
    using pr(3) decode_row_zip by blast
  ultimately show ?thesis using pr by blast
qed

theorem row_record_shape_witness:
  "fst (fetch_results default_client ''q'' None (page_world two_pages [Inr succeeded]))
     = Return \<lparr>columns = [''a'', ''b''],
        rows = [[(''a'', Some ''1''), (''b'', None)], [(''a'', Some ''2''), (''b'', Some ''x'')],
                [(''a'', Some ''3''), (''b'', Some ''y'')], [(''a'', Some ''4''), (''b'', Some ''z'')]],
        query_execution_id = ''q'', state = ''SUCCEEDED'', statistics = None\<rparr>
   \<and> map fst [(''a'', Some ''1''), (''b'', None :: string option)] = [''a'', ''b'']
   \<and> map snd [(''a'', Some ''1''), (''b'', None :: string option)] = [Some ''1'', None]"
proof -
  let ?qr = "\<lparr>columns = [''a'', ''b''],
        rows = [[(''a'', Some ''1''), (''b'', None)], [(''a'', Some ''2''), (''b'', Some ''x'')],
                [(''a'', Some ''3''), (''b'', Some ''y'')], [(''a'', Some ''4''), (''b'', Some ''z'')]],
        query_execution_id = ''q'', state = ''SUCCEEDED'', statistics = None\<rparr>"
  have run: "fst (fetch_results default_client ''q'' None (page_world two_pages [Inr succeeded])) = Return ?qr"
    by code_simp
  have mem: "[(''a'', Some ''1''), (''b'', None)] \<in> set (rows ?qr)" by simp
  from row_record_shape [OF run mem] run show ?thesis by simp
qed

text \<open>
  C2, as stated, fails: a \<open>DESCRIBE\<close> answer declares three columns and carries one cell
  in its data row, and the row record has the single key \<open>col_name\<close>.
\<close>

theorem row_keys_counterexample:
  "fst (fetch_results default_client ''q'' (Some 500) (page_world [Inr describe_page] [Inr succeeded]))
     = Return \<lparr>columns = [''col_name'', ''data_type'', ''comment''],
        rows = [[(''col_name'', Some ''id bigint'')]],
        query_execution_id = ''q'', state = ''SUCCEEDED'', statistics = None\<rparr>
   \<and> map fst [(''col_name'', Some ''id bigint'')] \<noteq> [''col_name'', ''data_type'', ''comment'']"
  by code_simp

subsection \<open>The row cap\<close>

text \<open>
  C4. When a fetch with row cap \<open>n\<close> returns and the remote holds at least \<open>n\<close> data rows
  (the rows of the pages it serves along the continuation tokens, the first row of the first
  page excepted), the result has exactly \<open>n\<close> row records, and they are the decodings of
  the first \<open>n\<close> data rows: the header is neither counted nor returned, however the rows are
  spread over pages.
\<close>

theorem capped_fetch_exact:
  assumes "fst (fetch_results self qid (Some (int n)) w) = Return qr"
    and "n \<le> length (pending_rows True (result_answers w))"
  shows "length (rows qr) = n
    \<and> map Inr (rows qr) = map (decode_row (columns qr)) (take n (pending_rows True (result_answers w)))"
proof -
  from fst_fetch_results_Return [OF assms(1)] obtain w1 where
    "fetch_loop self qid (Some (int n)) [] [] None True w = (Return (columns qr, rows qr), w1)"
    by blast
  from fetch_loop_capped [OF this] have m:
    "map Inr (rows qr) = map (decode_row (columns qr)) (take n (pending_rows True (result_answers w)))"
    by simp
  then have "length (rows qr) = length (take n (pending_rows True (result_answers w)))"
    by (metis length_map)
  with assms(2) m show ?thesis by simp
qed

theorem capped_fetch_exact_witness:
  "fst (fetch_results default_client ''q'' (Some (int 3)) (page_world two_pages [Inr succeeded]))
     = Return \<lparr>columns = [''a'', ''b''],
        rows = [[(''a'', Some ''1''), (''b'', None)], [(''a'', Some ''2''), (''b'', Some ''x'')],
                [(''a'', Some ''3''), (''b'', Some ''y'')]],
        query_execution_id = ''q'', state = ''SUCCEEDED'', statistics = None\<rparr>
   \<and> 3 \<le> length (pending_rows True (result_answers (page_world two_pages [Inr succeeded])))
   \<and> length [[(''a'', Some ''1''), (''b'', None)], [(''a'', Some ''2''), (''b'', Some ''x'')],
                [(''a'', Some ''3''), (''b'', Some ''y'')]] = (3::nat)"
proof -
  let ?qr = "\<lparr>columns = [''a'', ''b''],
        rows = [[(''a'', Some ''1''), (''b'', None)], [(''a'', Some ''2''), (''b'', Some ''x'')],
                [(''a'', Some ''3''), (''b'', Some ''y'')]],
        query_execution_id = ''q'', state = ''SUCCEEDED'', statistics = None\<rparr>"
  have run: "fst (fetch_results default_client ''q'' (Some (int 3)) (page_world two_pages [Inr succeeded])) = Return ?qr"
    by code_simp
  have enough: "3 \<le> length (pending_rows True (result_answers (page_world two_pages [Inr succeeded])))"
    by code_simp
  from capped_fetch_exact [OF run enough] run enough show ?thesis by simp
qed

subsection \<open>The final statistics lookup\<close>




subsection \<open>Strings and the non-wrappable prefix\<close>

lemma space_not_word: "is_space c \<Longrightarrow> \<not> is_word c"
  by (auto simp: is_space_def is_word_def Let_def)

lemma semicolon_not_word: "\<not> is_word (CHR '';'')"
  by (simp add: is_word_def)

lemma upper_letter_is_word:
  "65 \<le> (of_char (ascii_upper c) :: nat) \<Longrightarrow> (of_char (ascii_upper c) :: nat) \<le> 90 \<Longrightarrow> is_word c"
  by (auto simp: ascii_upper_def is_word_def Let_def split: if_splits)

lemma keywords_upper:
  "kw \<in> set NON_WRAPPABLE_KEYWORDS \<Longrightarrow> c \<in> set kw \<Longrightarrow>
   65 \<le> (of_char c :: nat) \<and> (of_char c :: nat) \<le> 90"
  by (auto simp: NON_WRAPPABLE_KEYWORDS_def)

lemma takeWhile_prefix_all:
  "\<forall>x\<in>set xs. P x \<Longrightarrow> ys = [] \<or> \<not> P (hd ys) \<Longrightarrow> takeWhile P (xs @ ys) = xs"
  by (cases ys) (simp_all add: takeWhile_append2)

lemma keyword_at_start_iff:
  assumes "kw \<in> set NON_WRAPPABLE_KEYWORDS"
  shows "keyword_at_start kw s \<longleftrightarrow> map ascii_upper (takeWhile is_word s) = kw"
proof
  assume k: "keyword_at_start kw s"
  then have m: "map ascii_upper (take (length kw) s) = kw"
    and nxt: "drop (length kw) s = [] \<or> \<not> is_word (hd (drop (length kw) s))"
    by (auto simp: keyword_at_start_def split: list.splits)
  have "\<forall>c\<in>set (take (length kw) s). is_word c"
  proof
    fix c assume "c \<in> set (take (length kw) s)"
    then have "ascii_upper c \<in> set kw" using m by (metis image_eqI set_map)
    from keywords_upper [OF assms this] show "is_word c"
      by (simp add: upper_letter_is_word)
  qed
  from takeWhile_prefix_all [OF this nxt] have "takeWhile is_word s = take (length kw) s"
    by simp
  with m show "map ascii_upper (takeWhile is_word s) = kw" by simp
next
  assume m: "map ascii_upper (takeWhile is_word s) = kw"
  then have len: "length (takeWhile is_word s) = length kw" by (metis length_map)
  have tk: "take (length kw) s = takeWhile is_word s"
    using len by (metis append_eq_conv_conj takeWhile_dropWhile_id)
  have dr: "drop (length kw) s = dropWhile is_word s"
    using len by (metis append_eq_conv_conj takeWhile_dropWhile_id)
  have "case dropWhile is_word s of [] \<Rightarrow> True | c # _ \<Rightarrow> \<not> is_word c"
    by (metis (mono_tags, lifting) hd_dropWhile list.case_eq_if list.sel(1) list.simps(5) neq_Nil_conv)
  then show "keyword_at_start kw s"
    by (simp add: keyword_at_start_def tk dr m)
qed

lemma search_iff_leading_keyword:
  "NON_WRAPPABLE_PREFIX_search q \<longleftrightarrow> leading_keyword q \<in> set NON_WRAPPABLE_KEYWORDS"
  by (auto simp: NON_WRAPPABLE_PREFIX_search_def leading_keyword_def list_ex_iff keyword_at_start_iff)

lemma rev_dropWhile_rev:
  "\<exists>t. xs = rev (dropWhile P (rev xs)) @ t \<and> (\<forall>x\<in>set t. P x)"
proof -
  have "rev xs = takeWhile P (rev xs) @ dropWhile P (rev xs)" by simp
  then have "xs = rev (dropWhile P (rev xs)) @ rev (takeWhile P (rev xs))"
    by (metis rev_append rev_rev_ident)
  moreover have "\<forall>x\<in>set (rev (takeWhile P (rev xs))). P x"
    by (auto dest: set_takeWhileD)
  ultimately show ?thesis by blast
qed

lemma lstrip_no_leading_space: "lstrip s = [] \<or> \<not> is_space (hd (lstrip s))"
  unfolding lstrip_def by (metis hd_dropWhile)

lemma lstrip_id: "s = [] \<or> \<not> is_space (hd s) \<Longrightarrow> lstrip s = s"
  unfolding lstrip_def by (cases s) auto

lemma prefix_head: "xs = ys @ t \<Longrightarrow> xs = [] \<or> \<not> P (hd xs) \<Longrightarrow> ys = [] \<or> \<not> P (hd ys)"
  by (cases ys) auto

lemma strip_trailing_semicolon_decomp:
  "\<exists>t. lstrip query = strip_trailing_semicolon query @ t
     \<and> (\<forall>c\<in>set t. is_space c \<or> c = CHR '';'')
     \<and> (strip_trailing_semicolon query = [] \<or> \<not> is_space (hd (strip_trailing_semicolon query)))"
proof -
  define s where "s = lstrip query"
  define a where "a = rstrip s"
  define b where "b = rstrip_char (CHR '';'') a"
  define q where "q = rstrip b"
  have s0: "s = [] \<or> \<not> is_space (hd s)" unfolding s_def by (rule lstrip_no_leading_space)
  obtain t1 where t1: "s = a @ t1" "\<forall>c\<in>set t1. is_space c"
    unfolding a_def rstrip_def using rev_dropWhile_rev [of s is_space] by blast
  obtain t2 where t2: "a = b @ t2" "\<forall>c\<in>set t2. c = CHR '';''"
    unfolding b_def rstrip_char_def using rev_dropWhile_rev [of a "\<lambda>x. x = CHR '';''"] by blast
  obtain t3 where t3: "b = q @ t3" "\<forall>c\<in>set t3. is_space c"
    unfolding q_def rstrip_def using rev_dropWhile_rev [of b is_space] by blast
  have b0: "b = [] \<or> \<not> is_space (hd b)"
    using prefix_head [of s b "t2 @ t1" is_space] t1(1) t2(1) s0 by simp
  then have lb: "lstrip b = b" by (rule lstrip_id)
  have q0: "q = [] \<or> \<not> is_space (hd q)"
    using prefix_head [of b q t3 is_space] t3(1) b0 by blast
  have "strip_trailing_semicolon query = q"
    by (simp add: strip_trailing_semicolon_def strip_def q_def b_def a_def s_def lb [unfolded b_def a_def s_def])
  moreover have "s = q @ (t3 @ t2 @ t1)" using t1(1) t2(1) t3(1) by simp
  moreover have "\<forall>c\<in>set (t3 @ t2 @ t1). is_space c \<or> c = CHR '';''"
    using t1(2) t2(2) t3(2) by auto
  ultimately show ?thesis using q0 unfolding s_def by blast
qed

lemma leading_keyword_strip:
  "leading_keyword (strip_trailing_semicolon query) = leading_keyword query"
proof -
  from strip_trailing_semicolon_decomp [of query] obtain t where
    d: "lstrip query = strip_trailing_semicolon query @ t"
    and t: "\<forall>c\<in>set t. is_space c \<or> c = CHR '';''"
    and q0: "strip_trailing_semicolon query = [] \<or> \<not> is_space (hd (strip_trailing_semicolon query))"
    by blast
  let ?q = "strip_trailing_semicolon query"
  have nw: "\<forall>c\<in>set t. \<not> is_word c"
    using t space_not_word semicolon_not_word by auto
  have "dropWhile is_space ?q = ?q" using lstrip_id [OF q0] by (simp add: lstrip_def)
  moreover have "takeWhile is_word (?q @ t) = takeWhile is_word ?q"
  proof (cases "\<forall>c\<in>set ?q. is_word c")
    case True
    have "t = [] \<or> \<not> is_word (hd t)" using nw by (cases t) auto
    from takeWhile_prefix_all [OF True this] have "takeWhile is_word (?q @ t) = ?q" .
    moreover from True have "takeWhile is_word ?q = ?q" by (simp add: takeWhile_eq_all_conv)
    ultimately show ?thesis by (simp only:)
  next
    case False
    then show ?thesis by (metis takeWhile_append1)
  qed
  ultimately show ?thesis
    using d by (simp add: leading_keyword_def lstrip_def)
qed

lemma of_char_digit: "d < 10 \<Longrightarrow> (of_char (char_of (48 + d :: nat)) :: nat) = 48 + d"
  by simp

lemma decimal_value_str_nat: "decimal_value (str_nat n) = n"
proof (induction n rule: str_nat.induct)
  case (1 n)
  show ?case
  proof (cases "n < 10")
    case True
    then show ?thesis by (simp add: str_nat.simps [of n] decimal_value_def)
  next
    case False
    with 1 have "decimal_value (str_nat (n div 10)) = n div 10" by simp
    with False show ?thesis
      by (simp add: str_nat.simps [of n] decimal_value_def)
  qed
qed

subsection \<open>The polling loop\<close>

lemma float_sub_frame [simp]:
  "float_sub (w\<lparr>clock := c\<rparr>) = float_sub w"
  "float_sub (w\<lparr>start_answers := sa\<rparr>) = float_sub w"
  "float_sub (w\<lparr>execution_answers := ea\<rparr>) = float_sub w"
  "float_sub (w\<lparr>result_answers := ra\<rparr>) = float_sub w"
  "float_sub (w\<lparr>calls := cs\<rparr>) = float_sub w"
  by (simp_all add: float_sub_def fun_eq_iff)

lemma wait_loop_no_clock:
  "clock w = [] \<Longrightarrow> wait_loop self qid t0 w = (NoAnswer, w\<lparr>calls := calls w @ [TimeTime]\<rparr>)"
  by (simp add: wait_loop.simps [of _ _ _ w] time_time_def Let_def)

lemma wait_loop_late:
  "clock w = t # ts \<Longrightarrow> timeout self < float_sub w t t0 \<Longrightarrow>
   wait_loop self qid t0 w = (Raise (TimeoutError qid), w\<lparr>clock := ts, calls := calls w @ [TimeTime]\<rparr>)"
  by (simp add: wait_loop.simps [of _ _ _ w] time_time_def Let_def)

lemma wait_loop_no_answer:
  "clock w = t # ts \<Longrightarrow> \<not> timeout self < float_sub w t t0 \<Longrightarrow> execution_answers w = [] \<Longrightarrow>
   wait_loop self qid t0 w =
     (NoAnswer, w\<lparr>clock := ts, calls := calls w @ [TimeTime, GetQueryExecution qid]\<rparr>)"
  by (simp add: wait_loop.simps [of _ _ _ w] time_time_def get_query_execution_def Let_def)

lemma wait_loop_client_error:
  "clock w = t # ts \<Longrightarrow> \<not> timeout self < float_sub w t t0 \<Longrightarrow> execution_answers w = Inl msg # es \<Longrightarrow>
   wait_loop self qid t0 w =
     (Raise (ClientError msg),
      w\<lparr>clock := ts, execution_answers := es, calls := calls w @ [TimeTime, GetQueryExecution qid]\<rparr>)"
  by (simp add: wait_loop.simps [of _ _ _ w] time_time_def get_query_execution_def Let_def answer_def)

lemma wait_loop_terminal:
  "clock w = t # ts \<Longrightarrow> \<not> timeout self < float_sub w t t0 \<Longrightarrow> execution_answers w = Inr e # es \<Longrightarrow>
   State e \<in> set terminal_states \<Longrightarrow>
   wait_loop self qid t0 w =
     (Return (State e),
      w\<lparr>clock := ts, execution_answers := es, calls := calls w @ [TimeTime, GetQueryExecution qid]\<rparr>)"
  by (simp add: wait_loop.simps [of _ _ _ w] time_time_def get_query_execution_def Let_def answer_def)

lemma wait_loop_again:
  "clock w = t # ts \<Longrightarrow> \<not> timeout self < float_sub w t t0 \<Longrightarrow> execution_answers w = Inr e # es \<Longrightarrow>
   State e \<notin> set terminal_states \<Longrightarrow>
   wait_loop self qid t0 w =
     wait_loop self qid t0
       (w\<lparr>clock := ts, execution_answers := es,
          calls := calls w @ [TimeTime, GetQueryExecution qid, TimeSleep (poll_interval self)]\<rparr>)"
  by (simp add: wait_loop.simps [of _ _ _ w] time_time_def get_query_execution_def Let_def answer_def
      time_sleep_def)








lemma wait_loop_cases:
  obtains (no_clock) "clock w = []"
  | (late) t ts where "clock w = t # ts" "timeout self < float_sub w t t0"
  | (no_answer) t ts where "clock w = t # ts" "\<not> timeout self < float_sub w t t0" "execution_answers w = []"
  | (client_error) t ts msg es where "clock w = t # ts" "\<not> timeout self < float_sub w t t0"
      "execution_answers w = Inl msg # es"
  | (terminal) t ts e es where "clock w = t # ts" "\<not> timeout self < float_sub w t t0"
      "execution_answers w = Inr e # es" "State e \<in> set terminal_states"
  | (again) t ts e es where "clock w = t # ts" "\<not> timeout self < float_sub w t t0"
      "execution_answers w = Inr e # es" "State e \<notin> set terminal_states"
proof (cases "clock w")
  case Nil
  then show ?thesis by (rule no_clock)
next
  case c: (Cons t ts)
  show ?thesis
  proof (cases "timeout self < float_sub w t t0")
    case True
    with c show ?thesis by (rule late)
  next
    case l: False
    show ?thesis
    proof (cases "execution_answers w")
      case Nil
      with c l show ?thesis by (rule no_answer)
    next
      case a: (Cons a es)
      show ?thesis
      proof (cases a)
        case (Inl msg)
        with c l a show ?thesis using client_error by blast
      next
        case (Inr e)
        with c l a show ?thesis using terminal again by blast
      qed
    qed
  qed
qed

lemma wait_loop_return:
  "fst (wait_loop self qid t0 w) = Return st \<Longrightarrow>
   st \<in> set terminal_states \<and> (\<exists>e. Inr e \<in> set (execution_answers w) \<and> State e = st)"
proof (induction ts \<equiv> "clock w" arbitrary: w)
  case Nil
  then show ?case using wait_loop_no_clock [of w self qid t0] by simp
next
  case (Cons t ts)
  show ?case
  proof (cases rule: wait_loop_cases [where w = w and self = self and ?t0.0 = t0])
    case no_clock
    with Cons(2) show ?thesis by simp
  next
    case (late t' ts')
    with Cons(3) show ?thesis by (simp add: wait_loop_late)
  next
    case (no_answer t' ts')
    with Cons(3) show ?thesis by (simp add: wait_loop_no_answer)
  next
    case (client_error t' ts' msg es)
    with Cons(3) show ?thesis by (simp add: wait_loop_client_error)
  next
    case (terminal t' ts' e es)
    with Cons(3) show ?thesis by (auto simp: wait_loop_terminal)
  next
    case (again t' ts' e es)
    let ?w = "w\<lparr>clock := ts', execution_answers := es,
        calls := calls w @ [TimeTime, GetQueryExecution qid, TimeSleep (poll_interval self)]\<rparr>"
    from again(1) Cons(2) have "ts = clock ?w" by simp
    moreover from Cons(3) again have "fst (wait_loop self qid t0 ?w) = Return st"
      by (simp add: wait_loop_again [of w t' ts' self t0 e es])
    ultimately have "st \<in> set terminal_states \<and> (\<exists>e. Inr e \<in> set (execution_answers ?w) \<and> State e = st)"
      by (rule Cons(1))
    with again(3) show ?thesis by auto
  qed
qed

lemma wait_loop_calls:
  "\<exists>cs. calls (snd (wait_loop self qid t0 w)) = calls w @ TimeTime # cs
       \<and> polls_follow_checks (TimeTime # cs)"
proof (induction ts \<equiv> "clock w" arbitrary: w)
  case Nil
  then show ?case using wait_loop_no_clock [of w self qid t0] by simp
next
  case (Cons t ts)
  show ?case
  proof (cases rule: wait_loop_cases [where w = w and self = self and ?t0.0 = t0])
    case no_clock
    with Cons(2) show ?thesis by simp
  next
    case (late t' ts')
    then show ?thesis by (simp add: wait_loop_late)
  next
    case (no_answer t' ts')
    then show ?thesis by (simp add: wait_loop_no_answer)
  next
    case (client_error t' ts' msg es)
    then show ?thesis by (simp add: wait_loop_client_error)
  next
    case (terminal t' ts' e es)
    then show ?thesis by (simp add: wait_loop_terminal)
  next
    case (again t' ts' e es)
    let ?w = "w\<lparr>clock := ts', execution_answers := es,
        calls := calls w @ [TimeTime, GetQueryExecution qid, TimeSleep (poll_interval self)]\<rparr>"
    from again(1) Cons(2) have "ts = clock ?w" by simp
    from Cons(1) [OF this] obtain cs where
      cs: "calls (snd (wait_loop self qid t0 ?w)) = calls ?w @ TimeTime # cs"
        "polls_follow_checks (TimeTime # cs)"
      by blast
    have "calls (snd (wait_loop self qid t0 w))
            = calls w @ TimeTime # (GetQueryExecution qid # TimeSleep (poll_interval self) # TimeTime # cs)"
      using cs(1) again by (simp add: wait_loop_again [of w t' ts' self t0 e es])
    moreover have "polls_follow_checks
        (TimeTime # (GetQueryExecution qid # TimeSleep (poll_interval self) # TimeTime # cs))"
      using cs(2) by simp
    ultimately show ?thesis by blast
  qed
qed


lemma wait_for_completion_unfold:
  "clock w = t0 # ts \<Longrightarrow>
   wait_for_completion self qid w =
     wait_loop self qid t0 (w\<lparr>clock := ts, calls := calls w @ [TimeTime]\<rparr>)"
  by (cases w) (simp add: wait_for_completion_def time_time_def Let_def)




subsection \<open>Run and wait: \<open>execute_query\<close>\<close>

lemma fetch_loop_calls:
  "\<exists>cs. calls (snd (fetch_loop self qid mr cols acc tok first w)) = calls w @ cs
      \<and> GetQueryExecution qid' \<notin> set cs"
proof (induction as \<equiv> "result_answers w" arbitrary: w cols acc tok first)
  case Nil
  then show ?case
    by (simp add: fetch_loop.simps [of _ _ _ _ _ _ _ w] get_query_results_def Let_def)
next
  case (Cons a as)
  show ?case
  proof (cases a)
    case (Inl msg)
    with Cons(2) [symmetric] show ?thesis
      by (simp add: fetch_loop.simps [of _ _ _ _ _ _ _ w] get_query_results_def Let_def answer_def)
  next
    case (Inr p)
    with Cons(2) have ans: "result_answers w = Inr p # as" by simp
    have c1: "calls (after_page_request qid t m w) = calls w @ [GetQueryResults qid t m]" for t m
      by (simp add: after_page_request_def)
    have "as = result_answers (after_page_request qid t m w)" for t m
      by (simp add: ans)
    note IH = Cons(1) [OF this]
    show ?thesis
    proof (cases "cap_reached mr acc")
      case True
      then show ?thesis by (simp add: fetch_loop_Inr [OF ans])
    next
      case False
      define w1 where "w1 = after_page_request qid (if token_present tok then tok else None)
                    (page_size self mr (length acc) first) w"
      define cols1 where "cols1 = (if first then map column_name (ColumnInfo p) else cols)"
      define drs where "drs = (if first then tl (Rows p) else Rows p)"
      have unfold: "fetch_loop self qid mr cols acc tok first w =
          (case convert_rows mr cols1 drs acc of
             Inl e \<Rightarrow> (Raise e, w1)
           | Inr acc' \<Rightarrow>
               (if \<not> token_present (NextToken p) \<or> cap_reached mr acc'
                then (Return (cols1, acc'), w1)
                else fetch_loop self qid mr cols1 acc' (NextToken p) False w1))"
        by (simp only: fetch_loop_Inr [OF ans] False if_False Let_def w1_def cols1_def drs_def)
      have cw1: "\<exists>cs. calls w1 = calls w @ cs \<and> GetQueryExecution qid' \<notin> set cs"
        by (simp add: w1_def c1)
      have rec: "\<exists>cs. calls (snd (fetch_loop self qid mr cols1 acc' (NextToken p) False w1)) = calls w @ cs
          \<and> GetQueryExecution qid' \<notin> set cs" for acc'
      proof -
        from IH obtain cs where
          "calls (snd (fetch_loop self qid mr cols1 acc' (NextToken p) False w1)) = calls w1 @ cs"
          "GetQueryExecution qid' \<notin> set cs"
          unfolding w1_def by blast
        then show ?thesis by (simp add: w1_def c1)
      qed
      show ?thesis
        unfolding unfold using cw1 rec by (auto split: sum.splits simp del: append_assoc)
    qed
  qed
qed

lemma submit_frame: "execution_answers (snd (submit self query mr enf w)) = execution_answers w"
  by (simp add: submit_def start_query_execution_def Let_def split: list.splits)

lemma submit_calls:
  "calls (snd (submit self query mr enf w))
     = calls w @ [StartQueryExecution (query_to_run query mr enf) (database self) (workgroup self)]"
  by (simp add: submit_def start_query_execution_def Let_def split: list.splits)

lemma wait_for_completion_return:
  assumes "fst (wait_for_completion self qid w) = Return st"
  shows "st \<in> set terminal_states \<and> (\<exists>e. Inr e \<in> set (execution_answers w) \<and> State e = st)"
proof (cases "clock w")
  case Nil
  with assms show ?thesis by (simp add: wait_for_completion_def time_time_def Let_def)
next
  case (Cons t0 ts)
  from assms wait_loop_return [of self qid t0 "w\<lparr>clock := ts, calls := calls w @ [TimeTime]\<rparr>" st]
  show ?thesis by (simp add: wait_for_completion_unfold [OF Cons])
qed

lemma wait_for_completion_calls:
  "\<exists>cs. calls (snd (wait_for_completion self qid w)) = calls w @ cs"
proof (cases "clock w")
  case Nil
  then show ?thesis by (simp add: wait_for_completion_def time_time_def Let_def)
next
  case (Cons t0 ts)
  from wait_loop_calls [of self qid t0 "w\<lparr>clock := ts, calls := calls w @ [TimeTime]\<rparr>"]
  show ?thesis by (auto simp: wait_for_completion_unfold [OF Cons])
qed

lemma get_query_execution_calls:
  "calls (snd (get_query_execution qid w)) = calls w @ [GetQueryExecution qid]"
  by (simp add: get_query_execution_def Let_def split: list.splits)

lemma fetch_results_calls:
  "\<exists>cs. calls (snd (fetch_results self qid mr w)) = calls w @ cs"
proof -
  obtain r w1 where l: "fetch_loop self qid mr [] [] None True w = (r, w1)"
    by (cases "fetch_loop self qid mr [] [] None True w")
  from fetch_loop_calls [of self qid mr "[]" "[]" None True w] l obtain cs where
    cs: "calls w1 = calls w @ cs" by auto
  show ?thesis
  proof (cases r)
    case (Return x)
    obtain cols rs where x: "x = (cols, rs)" by (cases x)
    obtain r2 w2 where g: "get_query_execution qid w1 = (r2, w2)"
      by (cases "get_query_execution qid w1")
    with get_query_execution_calls [of qid w1] cs
    have "calls w2 = calls w @ cs @ [GetQueryExecution qid]" by simp
    with l Return x g show ?thesis
      by (cases r2) (simp_all add: fetch_results_def)
  next
    case (Raise e)
    with l cs show ?thesis by (simp add: fetch_results_def)
  next
    case NoAnswer
    with l cs show ?thesis by (simp add: fetch_results_def)
  qed
qed

lemma execute_query_unfold:
  "execute_query self query mr enf w =
     (case submit self query mr enf w of
        (NoAnswer, w1) \<Rightarrow> (NoAnswer, w1)
      | (Raise e, w1) \<Rightarrow> (Raise e, w1)
      | (Return qid, w1) \<Rightarrow>
          (case wait_for_completion self qid w1 of
             (NoAnswer, w2) \<Rightarrow> (NoAnswer, w2)
           | (Raise e, w2) \<Rightarrow> (Raise e, w2)
           | (Return st, w2) \<Rightarrow>
               (if st \<noteq> ''SUCCEEDED''
                then (case get_query_execution qid w2 of
                        (NoAnswer, w3) \<Rightarrow> (NoAnswer, w3)
                      | (Raise e, w3) \<Rightarrow> (Raise e, w3)
                      | (Return execution, w3) \<Rightarrow>
                          (Raise (RuntimeError (''Query failed: '' @ failure_reason execution)), w3))
                else fetch_results self qid mr w2)))"
  by (simp add: execute_query_def submit_def)

lemma execute_query_submits:
  "\<exists>cs. calls (snd (execute_query self query mr enf w))
     = calls w @ StartQueryExecution (query_to_run query mr enf) (database self) (workgroup self) # cs"
proof -
  let ?c = "StartQueryExecution (query_to_run query mr enf) (database self) (workgroup self)"
  obtain r1 w1 where s: "submit self query mr enf w = (r1, w1)"
    by (cases "submit self query mr enf w")
  with submit_calls [of self query mr enf w] have c1: "calls w1 = calls w @ [?c]" by simp
  show ?thesis
  proof (cases r1)
    case (Return qid)
    obtain r2 w2 where wt: "wait_for_completion self qid w1 = (r2, w2)"
      by (cases "wait_for_completion self qid w1")
    with wait_for_completion_calls [of self qid w1] c1 obtain cs2 where
      c2: "calls w2 = calls w @ ?c # cs2" by auto
    show ?thesis
    proof (cases r2)
      case st: (Return st)
      show ?thesis
      proof (cases "st = ''SUCCEEDED''")
        case True
        from fetch_results_calls [of self qid mr w2] c2 obtain cs3 where
          "calls (snd (fetch_results self qid mr w2)) = calls w @ ?c # cs3" by auto
        with s Return wt st True show ?thesis by (simp add: execute_query_unfold)
      next
        case False
        obtain r3 w3 where g: "get_query_execution qid w2 = (r3, w3)"
          by (cases "get_query_execution qid w2")
        with get_query_execution_calls [of qid w2] c2
        have "calls w3 = calls w @ ?c # (cs2 @ [GetQueryExecution qid])" by simp
        with s Return wt st False g show ?thesis
          by (cases r3) (simp_all add: execute_query_unfold)
      qed
    next
      case (Raise e)
      with s Return wt c2 show ?thesis by (simp add: execute_query_unfold)
    next
      case NoAnswer
      with s Return wt c2 show ?thesis by (simp add: execute_query_unfold)
    qed
  next
    case (Raise e)
    with s c1 show ?thesis by (simp add: execute_query_unfold)
  next
    case NoAnswer
    with s c1 show ?thesis by (simp add: execute_query_unfold)
  qed
qed

text \<open>
  C8, as amended. Take a run of \<open>execute_query\<close> in which the submission is answered with
  an execution id and the polling ends in a terminal state \<open>st\<close>, a state the remote
  reported. If \<open>st\<close> is \<open>SUCCEEDED\<close>, the run continues with the fetch of the results and
  with nothing else: no status request is made between the last poll and the fetch. A
  \<open>QueryResult\<close> is returned only then, and its state is \<open>SUCCEEDED\<close>. If \<open>st\<close> is
  \<open>FAILED\<close> or \<open>CANCELLED\<close>, exactly one more status request is made and nothing else.
  When it is answered, the run raises \<open>RuntimeError\<close> with the message \<open>Query failed:\<close>
  followed by the reason text of the answer, or by \<open>Unknown error\<close> when the answer has no
  reason. When that request raises, its exception reaches the caller instead.
\<close>

theorem execute_query_outcome:
  fixes self query max_rows enforce_limit w qid
  defines "w1 \<equiv> snd (submit self query max_rows enforce_limit w)"
  defines "w2 \<equiv> snd (wait_for_completion self qid w1)"
  assumes start: "fst (submit self query max_rows enforce_limit w) = Return qid"
      and wait: "fst (wait_for_completion self qid w1) = Return st"
  shows "st \<in> set terminal_states
     \<and> (\<exists>e. Inr e \<in> set (execution_answers w) \<and> State e = st)
     \<and> (st = ''SUCCEEDED'' \<longrightarrow>
          execute_query self query max_rows enforce_limit w = fetch_results self qid max_rows w2)
     \<and> (\<forall>qr. fst (execute_query self query max_rows enforce_limit w) = Return qr \<longrightarrow>
          st = ''SUCCEEDED'' \<and> state qr = ''SUCCEEDED'')
     \<and> (st \<noteq> ''SUCCEEDED'' \<longrightarrow>
          (\<forall>e es. execution_answers w2 = Inr e # es \<longrightarrow>
             execute_query self query max_rows enforce_limit w =
               (Raise (RuntimeError (''Query failed: '' @ failure_reason e)),
                w2\<lparr>execution_answers := es, calls := calls w2 @ [GetQueryExecution qid]\<rparr>)))
     \<and> (\<forall>e r. StateChangeReason e = Some r \<longrightarrow> failure_reason e = r)
     \<and> (st \<noteq> ''SUCCEEDED'' \<longrightarrow>
          calls (snd (execute_query self query max_rows enforce_limit w))
            = calls w2 @ [GetQueryExecution qid]
          \<and> fst (execute_query self query max_rows enforce_limit w) =
              (case execution_answers w2 of
                 [] \<Rightarrow> NoAnswer
               | Inl msg # es \<Rightarrow> Raise (ClientError msg)
               | Inr e # es \<Rightarrow> Raise (RuntimeError (''Query failed: '' @ failure_reason e))))
     \<and> (\<forall>e. StateChangeReason e = None \<longrightarrow> failure_reason e = ''Unknown error'')"
proof -
  have s: "submit self query max_rows enforce_limit w = (Return qid, w1)"
    using start by (simp add: w1_def prod_eq_iff)
  have wt: "wait_for_completion self qid w1 = (Return st, w2)"
    using wait by (simp add: w2_def prod_eq_iff)
  from wait_for_completion_return [OF wait]
  have 1: "st \<in> set terminal_states" and 2: "\<exists>e. Inr e \<in> set (execution_answers w) \<and> State e = st"
    by (simp_all add: w1_def submit_frame)
  have 3: "st = ''SUCCEEDED'' \<longrightarrow>
          execute_query self query max_rows enforce_limit w = fetch_results self qid max_rows w2"
    by (simp add: execute_query_unfold s wt)
  have 5: "st \<noteq> ''SUCCEEDED'' \<longrightarrow>
          (\<forall>e es. execution_answers w2 = Inr e # es \<longrightarrow>
             execute_query self query max_rows enforce_limit w =
               (Raise (RuntimeError (''Query failed: '' @ failure_reason e)),
                w2\<lparr>execution_answers := es, calls := calls w2 @ [GetQueryExecution qid]\<rparr>))"
    by (cases w2) (simp add: execute_query_unfold s wt get_query_execution_def Let_def answer_def)
  have 4: "\<forall>qr. fst (execute_query self query max_rows enforce_limit w) = Return qr \<longrightarrow>
          st = ''SUCCEEDED'' \<and> state qr = ''SUCCEEDED''"
  proof (intro allI impI)
    fix qr assume r: "fst (execute_query self query max_rows enforce_limit w) = Return qr"
    have st: "st = ''SUCCEEDED''"
    proof (rule ccontr)
      assume "st \<noteq> ''SUCCEEDED''"
      with r show False
        by (simp add: execute_query_unfold s wt split: prod.splits outcome.splits)
    qed
    with r have "fst (fetch_results self qid max_rows w2) = Return qr"
      by (simp add: execute_query_unfold s wt)
    then have "state qr = ''SUCCEEDED''"
      by (auto simp: fetch_results_def split: prod.splits outcome.splits)
    with st show "st = ''SUCCEEDED'' \<and> state qr = ''SUCCEEDED''" by simp
  qed
  have 6: "\<forall>e r. StateChangeReason e = Some r \<longrightarrow> failure_reason e = r"
    and 8: "\<forall>e. StateChangeReason e = None \<longrightarrow> failure_reason e = ''Unknown error''"
    by (simp_all add: failure_reason_def)
  have 7: "st \<noteq> ''SUCCEEDED'' \<longrightarrow>
          calls (snd (execute_query self query max_rows enforce_limit w))
            = calls w2 @ [GetQueryExecution qid]
          \<and> fst (execute_query self query max_rows enforce_limit w) =
              (case execution_answers w2 of
                 [] \<Rightarrow> NoAnswer
               | Inl msg # es \<Rightarrow> Raise (ClientError msg)
               | Inr e # es \<Rightarrow> Raise (RuntimeError (''Query failed: '' @ failure_reason e)))"
  proof
    assume ns: "st \<noteq> ''SUCCEEDED''"
    obtain r3 w3 where g: "get_query_execution qid w2 = (r3, w3)"
      by (cases "get_query_execution qid w2")
    with get_query_execution_calls [of qid w2]
    have c3: "calls w3 = calls w2 @ [GetQueryExecution qid]" by simp
    have r3: "r3 = (case execution_answers w2 of [] \<Rightarrow> NoAnswer | a # es \<Rightarrow> answer a)"
      using g by (auto simp: get_query_execution_def Let_def split: list.splits)
    have e: "execute_query self query max_rows enforce_limit w =
        (case r3 of NoAnswer \<Rightarrow> (NoAnswer, w3) | Raise e \<Rightarrow> (Raise e, w3)
         | Return ex \<Rightarrow> (Raise (RuntimeError (''Query failed: '' @ failure_reason ex)), w3))"
      using ns by (simp add: execute_query_unfold s wt g)
    have "calls (snd (execute_query self query max_rows enforce_limit w))
            = calls w2 @ [GetQueryExecution qid]"
      unfolding e using c3 by (cases r3) simp_all
    moreover have "fst (execute_query self query max_rows enforce_limit w) =
              (case execution_answers w2 of
                 [] \<Rightarrow> NoAnswer
               | Inl msg # es \<Rightarrow> Raise (ClientError msg)
               | Inr e # es \<Rightarrow> Raise (RuntimeError (''Query failed: '' @ failure_reason e)))"
      unfolding e r3 by (simp add: answer_def split: list.splits sum.splits)
    ultimately show "calls (snd (execute_query self query max_rows enforce_limit w))
            = calls w2 @ [GetQueryExecution qid]
          \<and> fst (execute_query self query max_rows enforce_limit w) =
              (case execution_answers w2 of
                 [] \<Rightarrow> NoAnswer
               | Inl msg # es \<Rightarrow> Raise (ClientError msg)
               | Inr e # es \<Rightarrow> Raise (RuntimeError (''Query failed: '' @ failure_reason e)))"
      by blast
  qed
  from 1 2 3 4 5 6 7 8 show ?thesis by blast
qed

theorem execute_query_outcome_witness:
  "fst (submit default_client ''SELECT 1'' None False
          (remote_world [0, 0, 1] [Inr ''e1''] [Inr running, Inr failed, Inr failed] []))
     = Return ''e1''
   \<and> fst (wait_for_completion default_client ''e1''
          (snd (submit default_client ''SELECT 1'' None False
             (remote_world [0, 0, 1] [Inr ''e1''] [Inr running, Inr failed, Inr failed] []))))
     = Return ''FAILED''
   \<and> ''FAILED'' \<noteq> ''SUCCEEDED''
   \<and> execute_query default_client ''SELECT 1'' None False
          (remote_world [0, 0, 1] [Inr ''e1''] [Inr running, Inr failed, Inr failed] [])
     = (Raise (RuntimeError ''Query failed: SYNTAX_ERROR: line 1:8''),
        \<lparr>rounded = [], clock = [], start_answers = [], execution_answers = [], result_answers = [],
         calls = [StartQueryExecution ''SELECT 1'' ''d11_stitch'' ''data_stitch'',
                  TimeTime, TimeTime, GetQueryExecution ''e1'', TimeSleep 1,
                  TimeTime, GetQueryExecution ''e1'', GetQueryExecution ''e1'']\<rparr>)
   \<and> fst (submit default_client ''SELECT 1'' None False
          (remote_world [0, 0] [Inr ''e2''] [Inr succeeded, Inr succeeded] [Inr describe_page]))
     = Return ''e2''
   \<and> fst (wait_for_completion default_client ''e2''
          (snd (submit default_client ''SELECT 1'' None False
             (remote_world [0, 0] [Inr ''e2''] [Inr succeeded, Inr succeeded] [Inr describe_page]))))
     = Return ''SUCCEEDED''
   \<and> execute_query default_client ''SELECT 1'' None False
          (remote_world [0, 0] [Inr ''e2''] [Inr succeeded, Inr succeeded] [Inr describe_page])
     = (Return \<lparr>columns = [''col_name'', ''data_type'', ''comment''],
                rows = [[(''col_name'', Some ''id bigint'')]], query_execution_id = ''e2'',
                state = ''SUCCEEDED'', statistics = None\<rparr>,
        \<lparr>rounded = [], clock = [], start_answers = [], execution_answers = [], result_answers = [],
         calls = [StartQueryExecution ''SELECT 1'' ''d11_stitch'' ''data_stitch'',
                  TimeTime, TimeTime, GetQueryExecution ''e2'',
                  GetQueryResults ''e2'' None 100, GetQueryExecution ''e2'']\<rparr>)
   \<and> StateChangeReason failed = Some ''SYNTAX_ERROR: line 1:8''
   \<and> failure_reason failed = ''SYNTAX_ERROR: line 1:8''
   \<and> StateChangeReason cancelled = None \<and> failure_reason cancelled = ''Unknown error''"
proof -
  let ?W = "remote_world [0, 0, 1] [Inr ''e1''] [Inr running, Inr failed, Inr failed] []"
  let ?V = "remote_world [0, 0] [Inr ''e2''] [Inr succeeded, Inr succeeded] [Inr describe_page]"
  have s1: "fst (submit default_client ''SELECT 1'' None False ?W) = Return ''e1''"
    by code_simp
  have w1: "fst (wait_for_completion default_client ''e1''
          (snd (submit default_client ''SELECT 1'' None False ?W))) = Return ''FAILED''"
    by code_simp
  have r1: "execute_query default_client ''SELECT 1'' None False ?W
     = (Raise (RuntimeError ''Query failed: SYNTAX_ERROR: line 1:8''),
        \<lparr>rounded = [], clock = [], start_answers = [], execution_answers = [], result_answers = [],
         calls = [StartQueryExecution ''SELECT 1'' ''d11_stitch'' ''data_stitch'',
                  TimeTime, TimeTime, GetQueryExecution ''e1'', TimeSleep 1,
                  TimeTime, GetQueryExecution ''e1'', GetQueryExecution ''e1'']\<rparr>)"
    by code_simp
  have s2: "fst (submit default_client ''SELECT 1'' None False ?V) = Return ''e2''"
    by code_simp
  have w2: "fst (wait_for_completion default_client ''e2''
          (snd (submit default_client ''SELECT 1'' None False ?V))) = Return ''SUCCEEDED''"
    by code_simp
  have r2: "execute_query default_client ''SELECT 1'' None False ?V
     = (Return \<lparr>columns = [''col_name'', ''data_type'', ''comment''],
                rows = [[(''col_name'', Some ''id bigint'')]], query_execution_id = ''e2'',
                state = ''SUCCEEDED'', statistics = None\<rparr>,
        \<lparr>rounded = [], clock = [], start_answers = [], execution_answers = [], result_answers = [],
         calls = [StartQueryExecution ''SELECT 1'' ''d11_stitch'' ''data_stitch'',
                  TimeTime, TimeTime, GetQueryExecution ''e2'',
                  GetQueryResults ''e2'' None 100, GetQueryExecution ''e2'']\<rparr>)"
    by code_simp
  have n1: "''FAILED'' \<noteq> ''SUCCEEDED''" by simp
  have f1: "StateChangeReason failed = Some ''SYNTAX_ERROR: line 1:8''
      \<and> failure_reason failed = ''SYNTAX_ERROR: line 1:8''"
    and f2: "StateChangeReason cancelled = None \<and> failure_reason cancelled = ''Unknown error''"
    by code_simp+
  from execute_query_outcome [OF s1 w1] execute_query_outcome [OF s2 w2] s1 w1 n1 r1 s2 w2 r2 f1 f2
  show ?thesis by blast
qed

text \<open>
  C8, as stated, fails: the polling ends in \<open>FAILED\<close>, the status request that follows
  raises, and the error that reaches the caller is that exception, with no reason text.
  When the polling ends in \<open>CANCELLED\<close> and the answer that follows has no reason, the
  message is \<open>Query failed: Unknown error\<close>.
\<close>

theorem reason_lookup_counterexample:
  "fst (submit default_client ''SELECT 1'' None False
          (remote_world [0, 0, 1] [Inr ''e1''] [Inr running, Inr failed, Inl ''ThrottlingException''] []))
     = Return ''e1''
   \<and> fst (wait_for_completion default_client ''e1''
          (snd (submit default_client ''SELECT 1'' None False
             (remote_world [0, 0, 1] [Inr ''e1'']
                [Inr running, Inr failed, Inl ''ThrottlingException''] []))))
     = Return ''FAILED''
   \<and> fst (execute_query default_client ''SELECT 1'' None False
          (remote_world [0, 0, 1] [Inr ''e1''] [Inr running, Inr failed, Inl ''ThrottlingException''] []))
     = Raise (ClientError ''ThrottlingException'')
   \<and> fst (wait_for_completion default_client ''e1''
          (snd (submit default_client ''SELECT 1'' None False
             (remote_world [0, 0] [Inr ''e1''] [Inr cancelled, Inr cancelled] []))))
     = Return ''CANCELLED''
   \<and> fst (execute_query default_client ''SELECT 1'' None False
          (remote_world [0, 0] [Inr ''e1''] [Inr cancelled, Inr cancelled] []))
     = Raise (RuntimeError ''Query failed: Unknown error'')"
  by code_simp

subsection \<open>The text that is submitted\<close>

lemma rstrip_id: "s = [] \<or> \<not> is_space (last s) \<Longrightarrow> rstrip s = s"
  unfolding rstrip_def by (cases "rev s") (auto simp: last_rev [symmetric] simp del: last_rev)

lemma rstrip_char_id: "s = [] \<or> last s \<noteq> c \<Longrightarrow> rstrip_char c s = s"
  unfolding rstrip_char_def by (cases "rev s") (auto simp: last_rev [symmetric] simp del: last_rev)

lemma strip_trailing_semicolon_id:
  assumes "query = [] \<or> (\<not> is_space (hd query) \<and> \<not> is_space (last query) \<and> last query \<noteq> CHR '';'')"
  shows "strip_trailing_semicolon query = query"
proof -
  have l: "lstrip query = query" using assms by (intro lstrip_id) auto
  have r: "rstrip query = query" using assms by (intro rstrip_id) auto
  have c: "rstrip_char (CHR '';'') query = query" using assms by (intro rstrip_char_id) auto
  show ?thesis by (simp add: strip_trailing_semicolon_def strip_def l r c)
qed

lemma query_to_run_non_wrappable:
  "leading_keyword query \<in> set NON_WRAPPABLE_KEYWORDS \<Longrightarrow>
   query_to_run query (Some n) True = strip_trailing_semicolon query"
  by (simp add: query_to_run_def maybe_wrap_with_limit_def Let_def search_iff_leading_keyword
      leading_keyword_strip)

lemma query_to_run_wrappable:
  "leading_keyword query \<notin> set NON_WRAPPABLE_KEYWORDS \<Longrightarrow>
   query_to_run query (Some n) True =
     ''SELECT * FROM ('' @ [CHR 0x0A] @ strip_trailing_semicolon query @ [CHR 0x0A]
       @ '') AS _q'' @ [CHR 0x0A] @ ''LIMIT '' @ str_int n"
  by (simp add: query_to_run_def maybe_wrap_with_limit_def Let_def search_iff_leading_keyword
      leading_keyword_strip)

text \<open>
  C3, as amended. For a statement whose leading keyword, ignoring case and leading
  whitespace, is in the non-wrappable set, a submission with a row cap and limit enforcement
  is never wrapped: the text sent to the remote is the caller's string with surrounding
  whitespace and trailing semicolons stripped. It is the caller's string itself when that
  has neither surrounding whitespace nor a trailing semicolon, and whenever the limit is not
  enforced.
\<close>

theorem non_wrappable_submission:
  assumes "leading_keyword query \<in> set NON_WRAPPABLE_KEYWORDS"
  shows "(\<exists>cs. calls (snd (execute_query self query (Some n) True w))
            = calls w @ StartQueryExecution (strip_trailing_semicolon query)
                          (database self) (workgroup self) # cs)
     \<and> (\<exists>cs. calls (snd (execute_query self query (Some n) False w))
            = calls w @ StartQueryExecution query (database self) (workgroup self) # cs)
     \<and> (query = [] \<or> (\<not> is_space (hd query) \<and> \<not> is_space (last query) \<and> last query \<noteq> CHR '';'')
          \<longrightarrow> strip_trailing_semicolon query = query)"
  using execute_query_submits [of self query "Some n" True w]
    execute_query_submits [of self query "Some n" False w]
    query_to_run_non_wrappable [OF assms, of n] strip_trailing_semicolon_id [of query]
  by (simp add: query_to_run_def)

theorem non_wrappable_submission_witness:
  "leading_keyword ([CHR 0x20] @ ''show tables; '') \<in> set NON_WRAPPABLE_KEYWORDS
   \<and> calls (snd (execute_query default_client ([CHR 0x20] @ ''show tables; '') (Some 5) True
               (remote_world [] [] [] [])))
       = [StartQueryExecution ''show tables'' ''d11_stitch'' ''data_stitch'']
   \<and> strip_trailing_semicolon ([CHR 0x20] @ ''show tables; '') = ''show tables''
   \<and> calls (snd (execute_query default_client ([CHR 0x20] @ ''show tables; '') (Some 5) False
               (remote_world [] [] [] [])))
       = [StartQueryExecution ([CHR 0x20] @ ''show tables; '') ''d11_stitch'' ''data_stitch'']
   \<and> leading_keyword ''SHOW TABLES'' \<in> set NON_WRAPPABLE_KEYWORDS
   \<and> \<not> is_space (hd ''SHOW TABLES'') \<and> \<not> is_space (last ''SHOW TABLES'')
   \<and> last ''SHOW TABLES'' \<noteq> CHR '';''
   \<and> strip_trailing_semicolon ''SHOW TABLES'' = ''SHOW TABLES''"
proof -
  have k1: "leading_keyword ([CHR 0x20] @ ''show tables; '') \<in> set NON_WRAPPABLE_KEYWORDS"
    by code_simp
  have k2: "leading_keyword ''SHOW TABLES'' \<in> set NON_WRAPPABLE_KEYWORDS"
    by code_simp
  have c1: "calls (snd (execute_query default_client ([CHR 0x20] @ ''show tables; '') (Some 5) True
               (remote_world [] [] [] [])))
       = [StartQueryExecution ''show tables'' ''d11_stitch'' ''data_stitch'']"
    by code_simp
  have c2: "calls (snd (execute_query default_client ([CHR 0x20] @ ''show tables; '') (Some 5) False
               (remote_world [] [] [] [])))
       = [StartQueryExecution ([CHR 0x20] @ ''show tables; '') ''d11_stitch'' ''data_stitch'']"
    by code_simp
  have s1: "strip_trailing_semicolon ([CHR 0x20] @ ''show tables; '') = ''show tables''"
    by code_simp
  have h: "\<not> is_space (hd ''SHOW TABLES'') \<and> \<not> is_space (last ''SHOW TABLES'')
     \<and> last ''SHOW TABLES'' \<noteq> CHR '';''"
    by code_simp
  from non_wrappable_submission [OF k1, of default_client 5 "remote_world [] [] [] []"]
    non_wrappable_submission [OF k2, of default_client 5 "remote_world [] [] [] []"]
    k1 k2 c1 c2 s1 h
  show ?thesis by simp
qed

text \<open>
  C3, as stated, fails: for \<open>SHOW TABLES;\<close> the text sent is \<open>SHOW TABLES\<close>, not the
  caller's string.
\<close>

theorem non_wrappable_text_counterexample:
  "leading_keyword ''SHOW TABLES;'' \<in> set NON_WRAPPABLE_KEYWORDS
   \<and> execute_query default_client ''SHOW TABLES;'' (Some 10) True (remote_world [] [] [] [])
       = (NoAnswer,
          \<lparr>rounded = [], clock = [], start_answers = [], execution_answers = [], result_answers = [],
           calls = [StartQueryExecution ''SHOW TABLES'' ''d11_stitch'' ''data_stitch'']\<rparr>)
   \<and> ''SHOW TABLES'' \<noteq> ''SHOW TABLES;''"
  by code_simp

text \<open>
  C7, as amended. For a statement whose leading keyword is not in the non-wrappable set,
  submitted with row cap \<open>n\<close> and limit enforcement, the text sent to the remote is
  \<open>SELECT * FROM (\<close>, a newline, the statement with surrounding whitespace stripped, then
  every trailing semicolon, then whitespace again, a newline, \<open>) AS _q\<close>, a newline, and
  \<open>LIMIT\<close> followed by the decimal digits of \<open>n\<close>. \<open>SELECT 1\<close> with cap 1 gives the text
  of the scenario.
\<close>

theorem wrapped_submission:
  assumes "leading_keyword query \<notin> set NON_WRAPPABLE_KEYWORDS"
  shows "(\<exists>cs. calls (snd (execute_query self query (Some n) True w))
            = calls w @ StartQueryExecution
                (''SELECT * FROM ('' @ [CHR 0x0A] @ strip_trailing_semicolon query @ [CHR 0x0A]
                   @ '') AS _q'' @ [CHR 0x0A] @ ''LIMIT '' @ str_int n)
                (database self) (workgroup self) # cs)
     \<and> (0 \<le> n \<longrightarrow> decimal_value (str_int n) = nat n)
     \<and> query_to_run ''SELECT 1'' (Some 1) True
         = ''SELECT * FROM ('' @ [CHR 0x0A] @ ''SELECT 1'' @ [CHR 0x0A] @ '') AS _q''
             @ [CHR 0x0A] @ ''LIMIT 1''"
proof -
  have "query_to_run ''SELECT 1'' (Some 1) True
         = ''SELECT * FROM ('' @ [CHR 0x0A] @ ''SELECT 1'' @ [CHR 0x0A] @ '') AS _q''
             @ [CHR 0x0A] @ ''LIMIT 1''"
    by code_simp
  moreover have "0 \<le> n \<longrightarrow> decimal_value (str_int n) = nat n"
    by (simp add: str_int_def decimal_value_str_nat)
  ultimately show ?thesis
    using execute_query_submits [of self query "Some n" True w]
      query_to_run_wrappable [OF assms, of n]
    by simp
qed

theorem wrapped_submission_witness:
  "leading_keyword ''select id from t; '' \<notin> set NON_WRAPPABLE_KEYWORDS
   \<and> calls (snd (execute_query default_client ''select id from t; '' (Some 25) True
               (remote_world [] [] [] [])))
       = [StartQueryExecution
            (''SELECT * FROM ('' @ [CHR 0x0A] @ ''select id from t'' @ [CHR 0x0A] @ '') AS _q''
               @ [CHR 0x0A] @ ''LIMIT 25'') ''d11_stitch'' ''data_stitch'']
   \<and> (0::int) \<le> 25 \<and> decimal_value (str_int 25) = nat 25"
proof -
  have k: "leading_keyword ''select id from t; '' \<notin> set NON_WRAPPABLE_KEYWORDS"
    by code_simp
  have c: "calls (snd (execute_query default_client ''select id from t; '' (Some 25) True
               (remote_world [] [] [] [])))
       = [StartQueryExecution
            (''SELECT * FROM ('' @ [CHR 0x0A] @ ''select id from t'' @ [CHR 0x0A] @ '') AS _q''
               @ [CHR 0x0A] @ ''LIMIT 25'') ''d11_stitch'' ''data_stitch'']"
    by code_simp
  from wrapped_submission [OF k, of default_client 25 "remote_world [] [] [] []"] k c
  show ?thesis by simp
qed

text \<open>
  C7, as stated, fails: \<open>SELECT 1;;\<close> stripped of a single trailing semicolon is
  \<open>SELECT 1;\<close>, and the statement that is wrapped is \<open>SELECT 1\<close>.
\<close>

theorem single_semicolon_counterexample:
  "leading_keyword ''SELECT 1;;'' \<notin> set NON_WRAPPABLE_KEYWORDS
   \<and> query_to_run ''SELECT 1;;'' (Some 1) True
       = ''SELECT * FROM ('' @ [CHR 0x0A] @ ''SELECT 1'' @ [CHR 0x0A] @ '') AS _q''
           @ [CHR 0x0A] @ ''LIMIT 1''
   \<and> strip_one_semicolon ''SELECT 1;;'' = ''SELECT 1;''
   \<and> query_to_run ''SELECT 1;;'' (Some 1) True
       \<noteq> ''SELECT * FROM ('' @ [CHR 0x0A] @ strip_one_semicolon ''SELECT 1;;'' @ [CHR 0x0A]
           @ '') AS _q'' @ [CHR 0x0A] @ ''LIMIT 1''"
  by code_simp

subsection \<open>The DDL text\<close>

lemma ddl_line_single: "ddl_line (Some c) [(c, Some v)] = Some v"
  by (simp add: ddl_line_def str_value_def)

lemma map_filter_single_column:
  "List.map_filter (ddl_line (Some c)) (map (\<lambda>v. [(c, Some v)]) vs) = vs"
  by (induction vs) (simp_all add: List.map_filter_simps ddl_line_single)

lemma ddl_text_single_column:
  assumes "columns result = [c]" and "rows result = map (\<lambda>v. [(c, Some v)]) vs"
  shows "ddl_text result = rstrip (join [CHR 0x0A] vs)"
proof (cases vs)
  case Nil
  with assms show ?thesis by (simp add: ddl_text_def rstrip_def)
next
  case (Cons v vs')
  have "List.map_filter (ddl_line (Some c)) (rows result) = vs"
    by (simp only: assms(2) map_filter_single_column)
  moreover have "rows result \<noteq> []" using assms(2) Cons by simp
  ultimately show ?thesis
    by (simp only: ddl_text_def Let_def assms(1) if_False list.sel not_Cons_self2
        list.distinct simp_thms if_True)
qed

text \<open>
  C9. \<open>show_create_table_fq\<close> runs \<open>SHOW CREATE TABLE\<close> on the table name, which is
  stripped and, when it has no dot, prefixed with the configured database and a dot. When
  the query returns a result with a single column and a text value in every row, the
  string returned is these values, row by row, joined with newlines, with trailing
  whitespace stripped from the whole. When the result has no rows, it is the empty string.
\<close>

theorem ddl_text_fetch:
  assumes "fst (execute_query self
                  (''SHOW CREATE TABLE '' @ qualify_table_name self full_table_name)
                  (Some 1000) False w) = Return result"
  shows "(columns result = [c] \<and> rows result = map (\<lambda>v. [(c, Some v)]) vs \<longrightarrow>
            fst (show_create_table_fq self full_table_name w) = Return (rstrip (join [CHR 0x0A] vs)))
     \<and> (rows result = [] \<longrightarrow> fst (show_create_table_fq self full_table_name w) = Return [])
     \<and> (CHR ''.'' \<notin> set (strip full_table_name) \<longrightarrow>
            qualify_table_name self full_table_name = database self @ ''.'' @ strip full_table_name)
     \<and> (CHR ''.'' \<in> set (strip full_table_name) \<longrightarrow>
            qualify_table_name self full_table_name = strip full_table_name)
     \<and> (\<exists>cs. calls (snd (show_create_table_fq self full_table_name w))
            = calls w @ StartQueryExecution
                (''SHOW CREATE TABLE '' @ qualify_table_name self full_table_name)
                (database self) (workgroup self) # cs)"
proof -
  let ?q = "''SHOW CREATE TABLE '' @ qualify_table_name self full_table_name"
  obtain w' where e: "execute_query self ?q (Some 1000) False w = (Return result, w')"
    using assms by (cases "execute_query self ?q (Some 1000) False w") simp
  then have r: "show_create_table_fq self full_table_name w = (Return (ddl_text result), w')"
    by (simp add: show_create_table_fq_def)
  have 1: "columns result = [c] \<and> rows result = map (\<lambda>v. [(c, Some v)]) vs \<longrightarrow>
            fst (show_create_table_fq self full_table_name w) = Return (rstrip (join [CHR 0x0A] vs))"
    using r ddl_text_single_column [of result c vs] by simp
  have 2: "rows result = [] \<longrightarrow> fst (show_create_table_fq self full_table_name w) = Return []"
    using r by (simp add: ddl_text_def)
  have 3: "CHR ''.'' \<notin> set (strip full_table_name) \<longrightarrow>
            qualify_table_name self full_table_name = database self @ ''.'' @ strip full_table_name"
    and 4: "CHR ''.'' \<in> set (strip full_table_name) \<longrightarrow>
            qualify_table_name self full_table_name = strip full_table_name"
    by (simp_all add: qualify_table_name_def Let_def)
  from execute_query_submits [of self ?q "Some 1000" False w] e r
  have 5: "\<exists>cs. calls (snd (show_create_table_fq self full_table_name w))
            = calls w @ StartQueryExecution ?q (database self) (workgroup self) # cs"
    by (simp add: query_to_run_def)
  from 1 2 3 4 5 show ?thesis by blast
qed

theorem ddl_text_fetch_witness:
  "fst (execute_query default_client
          (''SHOW CREATE TABLE '' @ qualify_table_name default_client '' t '') (Some 1000) False
          (remote_world [0, 0] [Inr ''e1''] [Inr succeeded, Inr succeeded] [Inr ddl_page]))
     = Return \<lparr>columns = [''createtab_stmt''],
         rows = map (\<lambda>v. [(''createtab_stmt'', Some v)])
                  [''CREATE TABLE t ('', ''  id bigint)'', '' ''],
         query_execution_id = ''e1'', state = ''SUCCEEDED'', statistics = None\<rparr>
   \<and> fst (show_create_table_fq default_client '' t ''
          (remote_world [0, 0] [Inr ''e1''] [Inr succeeded, Inr succeeded] [Inr ddl_page]))
     = Return (''CREATE TABLE t ('' @ [CHR 0x0A] @ ''  id bigint)'')
   \<and> rstrip (join [CHR 0x0A] [''CREATE TABLE t ('', ''  id bigint)'', '' ''])
     = ''CREATE TABLE t ('' @ [CHR 0x0A] @ ''  id bigint)''
   \<and> CHR ''.'' \<notin> set (strip '' t '')
   \<and> qualify_table_name default_client '' t '' = ''d11_stitch.t''
   \<and> fst (execute_query default_client
          (''SHOW CREATE TABLE '' @ qualify_table_name default_client ''db.t'') (Some 1000) False
          (remote_world [0, 0] [Inr ''e2''] [Inr succeeded, Inr succeeded] [Inr empty_ddl_page]))
     = Return \<lparr>columns = [''createtab_stmt''], rows = [],
         query_execution_id = ''e2'', state = ''SUCCEEDED'', statistics = None\<rparr>
   \<and> fst (show_create_table_fq default_client ''db.t''
          (remote_world [0, 0] [Inr ''e2''] [Inr succeeded, Inr succeeded] [Inr empty_ddl_page]))
     = Return []
   \<and> CHR ''.'' \<in> set (strip ''db.t'')
   \<and> qualify_table_name default_client ''db.t'' = ''db.t''"
proof -
  let ?W = "remote_world [0, 0] [Inr ''e1''] [Inr succeeded, Inr succeeded] [Inr ddl_page]"
  let ?V = "remote_world [0, 0] [Inr ''e2''] [Inr succeeded, Inr succeeded] [Inr empty_ddl_page]"
  let ?r1 = "\<lparr>columns = [''createtab_stmt''],
         rows = map (\<lambda>v. [(''createtab_stmt'', Some v)])
                  [''CREATE TABLE t ('', ''  id bigint)'', '' ''],
         query_execution_id = ''e1'', state = ''SUCCEEDED'', statistics = None\<rparr>"
  let ?r2 = "\<lparr>columns = [''createtab_stmt''], rows = [],
         query_execution_id = ''e2'', state = ''SUCCEEDED'', statistics = None\<rparr>"
  have e1: "fst (execute_query default_client
          (''SHOW CREATE TABLE '' @ qualify_table_name default_client '' t '') (Some 1000) False ?W)
     = Return ?r1"
    by code_simp
  have e2: "fst (execute_query default_client
          (''SHOW CREATE TABLE '' @ qualify_table_name default_client ''db.t'') (Some 1000) False ?V)
     = Return ?r2"
    by code_simp
  have j: "rstrip (join [CHR 0x0A] [''CREATE TABLE t ('', ''  id bigint)'', '' ''])
     = ''CREATE TABLE t ('' @ [CHR 0x0A] @ ''  id bigint)''"
    by code_simp
  have d1: "CHR ''.'' \<notin> set (strip '' t '')" and d2: "CHR ''.'' \<in> set (strip ''db.t'')"
    by code_simp+
  have s1: "fst (show_create_table_fq default_client '' t '' ?W)
     = Return (''CREATE TABLE t ('' @ [CHR 0x0A] @ ''  id bigint)'')"
    by code_simp
  have s2: "fst (show_create_table_fq default_client ''db.t'' ?V) = Return []"
    by code_simp
  have q1: "qualify_table_name default_client '' t '' = ''d11_stitch.t''"
    and q2: "qualify_table_name default_client ''db.t'' = ''db.t''"
    by code_simp+
  from ddl_text_fetch [OF e1, of "''createtab_stmt''" "[''CREATE TABLE t ('', ''  id bigint)'', '' '']"]
    ddl_text_fetch [OF e2, of "''createtab_stmt''" "[]"] e1 e2 j d1 d2 s1 s2 q1 q2
  show ?thesis by blast
qed

subsection \<open>The schema normaliser\<close>

lemma strip_Nil: "strip [] = []"
  by (simp add: strip_def lstrip_def rstrip_def)

lemma padded_part:
  "i < 3 \<Longrightarrow> strip ((ps @ [[], [], []]) ! i) = (if i < length ps then strip (ps ! i) else [])"
  by (auto simp: nth_append strip_Nil nth_Cons split: nat.splits)

lemma normalize_row_split: "normalize_row row = split_row row"
  by (simp add: normalize_row_def split_row_def tab_part_def Let_def padded_part)

lemma row_has_other_cols_iff: "row_has_other_cols row \<longleftrightarrow> \<not> only_name_keys row"
  by (auto simp: row_has_other_cols_def only_name_keys_def list_ex_iff list_all_iff)

text \<open>
  C5, as amended. The normaliser splits the rows if and only if the declared columns include
  \<open>col_name\<close>, the name field of at least one row contains a tab, and no row has a key
  other than \<open>col_name\<close>, whatever the values (a key that is the empty string does not
  count). Then every row becomes the three fields name, type and comment: the name field
  without its trailing newlines is cut at the tabs, the first three parts are stripped of
  surrounding whitespace, and a missing part is the empty string. On every other input the
  output is the input, unchanged.
\<close>

theorem normalizer_splits:
  "(''col_name'' \<in> set (columns result)
      \<and> list_ex (\<lambda>row. CHR 0x09 \<in> set (col_name_or_empty row)) (rows result)
      \<and> list_all only_name_keys (rows result)
     \<longrightarrow> normalize_describe_rows result = map split_row (rows result))
   \<and> (\<not> (''col_name'' \<in> set (columns result)
      \<and> list_ex (\<lambda>row. CHR 0x09 \<in> set (col_name_or_empty row)) (rows result)
      \<and> list_all only_name_keys (rows result))
     \<longrightarrow> normalize_describe_rows result = rows result)"
proof -
  have o: "list_ex row_has_other_cols (rows result) \<longleftrightarrow> \<not> list_all only_name_keys (rows result)"
    by (simp add: list_ex_iff list_all_iff row_has_other_cols_iff)
  have n: "map normalize_row (rows result) = map split_row (rows result)"
    by (simp add: normalize_row_split)
  show ?thesis
    unfolding normalize_describe_rows_def Let_def o n
    by (cases "rows result") auto
qed

theorem normalizer_splits_witness:
  "''col_name'' \<in> set (columns (describe_result [''col_name'', ''data_type'', ''comment''] collapsed_rows))
   \<and> list_ex (\<lambda>row. CHR 0x09 \<in> set (col_name_or_empty row))
         (rows (describe_result [''col_name'', ''data_type'', ''comment''] collapsed_rows))
   \<and> list_all only_name_keys
         (rows (describe_result [''col_name'', ''data_type'', ''comment''] collapsed_rows))
   \<and> normalize_describe_rows (describe_result [''col_name'', ''data_type'', ''comment''] collapsed_rows)
       = [[(''col_name'', Some ''id''), (''data_type'', Some ''bigint''),
           (''comment'', Some ''primary key'')],
          [(''col_name'', Some ''name''), (''data_type'', Some ''varchar''), (''comment'', Some [])]]
   \<and> \<not> list_all only_name_keys
         (rows (describe_result [''col_name'', ''data_type'', ''comment'']
            [[(''col_name'', Some ''id''), (''data_type'', Some ''bigint''), (''comment'', None)]]))
   \<and> normalize_describe_rows (describe_result [''col_name'', ''data_type'', ''comment'']
            [[(''col_name'', Some ''id''), (''data_type'', Some ''bigint''), (''comment'', None)]])
       = [[(''col_name'', Some ''id''), (''data_type'', Some ''bigint''), (''comment'', None)]]"
proof -
  let ?r = "describe_result [''col_name'', ''data_type'', ''comment''] collapsed_rows"
  let ?u = "describe_result [''col_name'', ''data_type'', ''comment'']
            [[(''col_name'', Some ''id''), (''data_type'', Some ''bigint''), (''comment'', None)]]"
  have a: "''col_name'' \<in> set (columns ?r)" by code_simp
  have b: "list_ex (\<lambda>row. CHR 0x09 \<in> set (col_name_or_empty row)) (rows ?r)" by code_simp
  have c: "list_all only_name_keys (rows ?r)" by code_simp
  have d: "normalize_describe_rows ?r
       = [[(''col_name'', Some ''id''), (''data_type'', Some ''bigint''),
           (''comment'', Some ''primary key'')],
          [(''col_name'', Some ''name''), (''data_type'', Some ''varchar''), (''comment'', Some [])]]"
    by code_simp
  have e: "\<not> list_all only_name_keys (rows ?u)" by code_simp
  have f: "normalize_describe_rows ?u
       = [[(''col_name'', Some ''id''), (''data_type'', Some ''bigint''), (''comment'', None)]]"
    by code_simp
  from normalizer_splits [of ?r] normalizer_splits [of ?u] a b c d e f
  show ?thesis by blast
qed

text \<open>
  C5, as stated, fails: a row whose name field contains a tab and whose only other field
  is null meets both conditions of the claim, and the rows come back unchanged, because
  the row has a second key.
\<close>

theorem populated_field_counterexample:
  "spec_anomaly null_typed_rows
   \<and> normalize_describe_rows (describe_result [''col_name'', ''data_type''] null_typed_rows)
       = null_typed_rows
   \<and> map split_row null_typed_rows
       = [[(''col_name'', Some ''id''), (''data_type'', Some ''bigint''), (''comment'', Some [])]]
   \<and> null_typed_rows \<noteq> map split_row null_typed_rows"
  by code_simp

end
